theory Spec2Isabelle
  imports Complex_Main "HOL-Library.Monad_Syntax"
begin

section \<open>Numbers, boxes and detections\<close>

text \<open>
  The tracking subsystem lives in \<^verbatim>\<open>src/backend/scripts/tracking_service.py\<close>.
  Python floats are modelled as \<^typ>\<open>real\<close> (exact arithmetic: no rounding, no NaN and no
  infinity), Python integers as \<^typ>\<open>int\<close>. A bounding box is the four-element list
  \<^verbatim>\<open>[x1, y1, x2, y2]\<close>; no code ever writes into such a list, so it is a value.
\<close>

type_synonym bbox = "real \<times> real \<times> real \<times> real"

fun b0 :: "bbox \<Rightarrow> real" where "b0 (a, b, c, d) = a"
fun b1 :: "bbox \<Rightarrow> real" where "b1 (a, b, c, d) = b"
fun b2 :: "bbox \<Rightarrow> real" where "b2 (a, b, c, d) = c"
fun b3 :: "bbox \<Rightarrow> real" where "b3 (a, b, c, d) = d"

text \<open>\<^verbatim>\<open>class Detection\<close>: four fields, set once by the constructor.\<close>

record detection =
  det_bbox :: bbox
  det_confidence :: real
  det_class_id :: int
  det_class_name :: string

section \<open>Track\<close>

datatype track_state = Tentative | Confirmed | Deleted

record track =
  bbox :: bbox
  confidence :: real
  class_id :: int
  class_name :: string
  track_id :: int
  hits :: int
  age :: int
  time_since_update :: int
  state :: track_state
  history :: "bbox list"
  confidence_history :: "real list"
  velocity :: "real \<times> real"
  acceleration :: "real \<times> real"
  stability_score :: real
  consistency_score :: real
  quality_score :: real

text \<open>\<^verbatim>\<open>Track.__init__(bbox, confidence, class_id, class_name, track_id)\<close>.\<close>

definition Track_init :: "bbox \<Rightarrow> real \<Rightarrow> int \<Rightarrow> string \<Rightarrow> int \<Rightarrow> track" where
  "Track_init b c cid cname tid =
     \<lparr> bbox = b, confidence = c, class_id = cid, class_name = cname, track_id = tid,
       hits = 1, age = 0, time_since_update = 0, state = Tentative,
       history = [b], confidence_history = [c],
       velocity = (0, 0), acceleration = (0, 0),
       stability_score = 1, consistency_score = 1, quality_score = c \<rparr>"

text \<open>
  \<^verbatim>\<open>Track.predict\<close> writes \<^verbatim>\<open>self.velocity\<close> in place and returns the predicted box;
  the model returns the track after the call together with the returned box.
  \<^verbatim>\<open>history[-2]\<close> and \<^verbatim>\<open>history[-1]\<close> are read only when the history has two entries.
\<close>

definition predict :: "track \<Rightarrow> track \<times> bbox" where
  "predict t =
     (if 2 \<le> length (history t) then
        let prev_bbox = history t ! (length (history t) - 2);
            curr_bbox = history t ! (length (history t) - 1);
            center_x = (b0 curr_bbox + b2 curr_bbox) / 2;
            center_y = (b1 curr_bbox + b3 curr_bbox) / 2;
            prev_center_x = (b0 prev_bbox + b2 prev_bbox) / 2;
            prev_center_y = (b1 prev_bbox + b3 prev_bbox) / 2;
            vx = center_x - prev_center_x;
            vy = center_y - prev_center_y;
            v0 = 0.7 * fst (velocity t) + 0.3 * vx;
            v1 = 0.7 * snd (velocity t) + 0.3 * vy;
            predicted_center_x = center_x + v0;
            predicted_center_y = center_y + v1;
            width = b2 curr_bbox - b0 curr_bbox;
            height = b3 curr_bbox - b1 curr_bbox
        in (t\<lparr>velocity := (v0, v1)\<rparr>,
            (predicted_center_x - width / 2, predicted_center_y - height / 2,
             predicted_center_x + width / 2, predicted_center_y + height / 2))
      else (t, bbox t))"

definition calculate_bbox_variation :: "bbox \<Rightarrow> bbox \<Rightarrow> real" where
  "calculate_bbox_variation bbox1 bbox2 =
     (let center1 = ((b0 bbox1 + b2 bbox1) / 2, (b1 bbox1 + b3 bbox1) / 2);
          center2 = ((b0 bbox2 + b2 bbox2) / 2, (b1 bbox2 + b3 bbox2) / 2)
      in sqrt ((fst center1 - fst center2)\<^sup>2 + (snd center1 - snd center2)\<^sup>2))"

text \<open>
  \<^verbatim>\<open>numpy.mean\<close> and \<^verbatim>\<open>numpy.std\<close> (population standard deviation) of a non-empty
  list, by their documented definitions.
\<close>

definition np_mean :: "real list \<Rightarrow> real" where
  "np_mean xs = sum_list xs / real (length xs)"

definition np_std :: "real list \<Rightarrow> real" where
  "np_std xs = sqrt (np_mean (map (\<lambda>x. (x - np_mean xs)\<^sup>2) xs))"

text \<open>The slice \<^verbatim>\<open>xs[-n:]\<close> for a positive literal \<open>n\<close>: the last \<open>n\<close> entries, or all.\<close>

definition last_n :: "nat \<Rightarrow> 'a list \<Rightarrow> 'a list" where
  "last_n n xs = drop (length xs - n) xs"

text \<open>The loop \<^verbatim>\<open>for i in range(1, len(recent_bboxes))\<close> collecting the variations.\<close>

definition bbox_variations :: "bbox list \<Rightarrow> real list" where
  "bbox_variations recent_bboxes =
     map (\<lambda>i. calculate_bbox_variation (recent_bboxes ! (i - 1)) (recent_bboxes ! i))
       [1..<length recent_bboxes]"

text \<open>
  \<^verbatim>\<open>Track.update(bbox, confidence)\<close> runs six groups of statements in sequence, each on
  the track as the previous one left it; they are defined one by one, in the order of
  the source. First the assignments and the two appends.
\<close>

definition record_observation :: "track \<Rightarrow> bbox \<Rightarrow> real \<Rightarrow> track" where
  "record_observation t b c =
     t\<lparr>bbox := b, confidence := c, hits := hits t + 1, age := age t + 1,
       time_since_update := 0, history := history t @ [b],
       confidence_history := confidence_history t @ [c]\<rparr>"

text \<open>\<^verbatim>\<open>if len(self.history) > 15\<close>: keep the last 15 entries of both histories.\<close>

definition trim_history :: "track \<Rightarrow> track" where
  "trim_history t =
     (if length (history t) > 15
      then t\<lparr>history := last_n 15 (history t),
             confidence_history := last_n 15 (confidence_history t)\<rparr>
      else t)"

text \<open>\<^verbatim>\<open>if len(self.history) >= 3\<close>: the stability score.\<close>

definition rescore_stability :: "track \<Rightarrow> track" where
  "rescore_stability t =
     (if length (history t) \<ge> 3
      then t\<lparr>stability_score :=
               1 - min 1 (np_mean (bbox_variations (last_n 3 (history t))) / 100)\<rparr>
      else t)"

text \<open>\<^verbatim>\<open>if len(self.confidence_history) >= 3\<close>: the consistency score.\<close>

definition rescore_consistency :: "track \<Rightarrow> track" where
  "rescore_consistency t =
     (if length (confidence_history t) \<ge> 3
      then t\<lparr>consistency_score := 1 - min 1 (np_std (last_n 5 (confidence_history t)))\<rparr>
      else t)"

definition rescore_quality :: "track \<Rightarrow> track" where
  "rescore_quality t =
     t\<lparr>quality_score := (confidence t + stability_score t + consistency_score t) / 3\<rparr>"

text \<open>The final \<^verbatim>\<open>if\<close>/\<^verbatim>\<open>elif\<close> on hits and quality; with neither branch the state stays.\<close>

definition restate :: "track \<Rightarrow> track" where
  "restate t =
     (if hits t \<ge> 3 \<and> quality_score t > 0.6 then t\<lparr>state := Confirmed\<rparr>
      else if hits t \<ge> 1 then t\<lparr>state := Tentative\<rparr>
      else t)"

definition Track_update :: "track \<Rightarrow> bbox \<Rightarrow> real \<Rightarrow> track" where
  "Track_update t b c =
     restate (rescore_quality (rescore_consistency (rescore_stability
       (trim_history (record_observation t b c)))))"

definition mark_missed :: "track \<Rightarrow> track" where
  "mark_missed t =
     t\<lparr>time_since_update := time_since_update t + 1, age := age t + 1,
       quality_score := quality_score t * 0.95\<rparr>"

record track_quality =
  q_confidence :: real
  q_stability :: real
  q_consistency :: real
  q_quality :: real
  q_hits :: int
  q_age :: int

definition get_track_quality :: "track \<Rightarrow> track_quality" where
  "get_track_quality t =
     \<lparr> q_confidence = confidence t, q_stability = stability_score t,
       q_consistency = consistency_score t, q_quality = quality_score t,
       q_hits = hits t, q_age = age t \<rparr>"

section \<open>EnhancedTracker\<close>

record tracker =
  max_age :: int
  min_hits :: int
  iou_threshold :: real
  tracks :: "track list"
  frame_count :: int
  next_id :: int

text \<open>\<^verbatim>\<open>EnhancedTracker.__init__(max_age=30, min_hits=3, iou_threshold=0.3)\<close>.\<close>

definition EnhancedTracker_init :: "int \<Rightarrow> int \<Rightarrow> real \<Rightarrow> tracker" where
  "EnhancedTracker_init ma mh thr =
     \<lparr> max_age = ma, min_hits = mh, iou_threshold = thr, tracks = [],
       frame_count = 0, next_id = 1 \<rparr>"

definition iou :: "bbox \<Rightarrow> bbox \<Rightarrow> real" where
  "iou bbox1 bbox2 =
     (let x1 = max (b0 bbox1) (b0 bbox2);
          y1 = max (b1 bbox1) (b1 bbox2);
          x2 = min (b2 bbox1) (b2 bbox2);
          y2 = min (b3 bbox1) (b3 bbox2);
          intersection = max 0 (x2 - x1) * max 0 (y2 - y1);
          area1 = (b2 bbox1 - b0 bbox1) * (b3 bbox1 - b1 bbox1);
          area2 = (b2 bbox2 - b0 bbox2) * (b3 bbox2 - b1 bbox2);
          union = area1 + area2 - intersection
      in if union > 0 then intersection / union else 0)"

subsection \<open>Object identity\<close>

text \<open>
  Neither \<^verbatim>\<open>Track\<close> nor \<^verbatim>\<open>Detection\<close> defines \<^verbatim>\<open>__eq__\<close>, so the tests
  \<^verbatim>\<open>x in list\<close>, \<^verbatim>\<open>x not in list\<close> and \<^verbatim>\<open>list.remove(x)\<close> compare object identity,
  and \<^verbatim>\<open>track.update(...)\<close> mutates the very object that \<^verbatim>\<open>self.tracks\<close> holds.

  \<^item> A Track object is referred to by its position in \<^verbatim>\<open>self.tracks\<close>. During one
    \<^verbatim>\<open>EnhancedTracker.update\<close> call that list is only mutated elementwise and appended to,
    until the final eviction, so a position names one object. The list of tracks at the
    time of a call is the store through which a reference is read.
  \<^item> A Detection object is immutable; it is carried as its position in the call's
    \<^verbatim>\<open>detections\<close> argument together with its fields, so that equality of two such pairs
    is identity of the objects (the argument is taken to hold distinct objects, as the
    list built by \<^verbatim>\<open>detect_objects_in_frame\<close> does).
\<close>

type_synonym track_ref = nat
type_synonym det_obj = "nat \<times> detection"

definition dbbox :: "det_obj \<Rightarrow> bbox" where
  "dbbox d = det_bbox (snd d)"

definition dconf :: "det_obj \<Rightarrow> real" where
  "dconf d = det_confidence (snd d)"

subsection \<open>The associator\<close>

text \<open>
  \<^verbatim>\<open>scipy.optimize.linear_sum_assignment\<close> is not code of this repository. It is a
  parameter: \<open>Some solve\<close> when the import succeeds, \<open>solve\<close> mapping the cost matrix to
  the two index arrays, and \<open>None\<close> when the import raises \<^verbatim>\<open>ImportError\<close>.
\<close>

type_synonym solver = "real list list \<Rightarrow> nat list \<times> nat list"

text \<open>
  What the library documents about its result, for a matrix with \<open>n\<close> rows and \<open>m\<close>
  columns: two arrays of equal length, row indices below \<open>n\<close>, column indices below
  \<open>m\<close>, no row and no column used twice.
\<close>

definition lsa_result_ok :: "nat \<Rightarrow> nat \<Rightarrow> nat list \<times> nat list \<Rightarrow> bool" where
  "lsa_result_ok n m r =
     (length (fst r) = length (snd r) \<and> list_all (\<lambda>i. i < n) (fst r)
      \<and> list_all (\<lambda>j. j < m) (snd r) \<and> distinct (fst r) \<and> distinct (snd r))"

definition cost_matrix :: "track list \<Rightarrow> det_obj list \<Rightarrow> track_ref list \<Rightarrow> real list list" where
  "cost_matrix store detections trks =
     map (\<lambda>t. map (\<lambda>d. 1 - iou (bbox (store ! t)) (dbbox d)) detections) trks"

text \<open>
  The inner loop of \<^verbatim>\<open>greedy_assignment\<close>: \<^verbatim>\<open>best_track\<close> and \<^verbatim>\<open>best_iou\<close> after
  scanning \<^verbatim>\<open>unmatched_tracks\<close> for one detection.
\<close>

definition best_track_step ::
  "real \<Rightarrow> track list \<Rightarrow> det_obj \<Rightarrow> track_ref \<Rightarrow> track_ref option \<times> real
     \<Rightarrow> track_ref option \<times> real" where
  "best_track_step thr store detection t acc =
     (if iou (bbox (store ! t)) (dbbox detection) > snd acc
         \<and> iou (bbox (store ! t)) (dbbox detection) > thr
      then (Some t, iou (bbox (store ! t)) (dbbox detection))
      else acc)"

definition find_best_track ::
  "real \<Rightarrow> track list \<Rightarrow> det_obj \<Rightarrow> track_ref list \<Rightarrow> track_ref option" where
  "find_best_track thr store detection unmatched_tracks =
     fst (fold (best_track_step thr store detection) unmatched_tracks (None, 0))"

text \<open>
  The outer loop \<^verbatim>\<open>for detection in unmatched_detections\<close>. A Python list iterator
  reads position \<open>i\<close> as long as \<open>i\<close> is below the current length, and the loop body
  appends to the list it iterates, so the loop is over a position in a growing list and
  may not end: it is a partial function, \<open>None\<close> standing for a call that never returns.
  A Track object is truthy, so \<^verbatim>\<open>if best_track:\<close> tests for \<^verbatim>\<open>None\<close>.
\<close>

partial_function (option) greedy_loop ::
  "real \<Rightarrow> track list \<Rightarrow> nat \<Rightarrow> (track_ref \<times> det_obj) list \<Rightarrow> det_obj list \<Rightarrow> track_ref list
     \<Rightarrow> ((track_ref \<times> det_obj) list \<times> det_obj list \<times> track_ref list) option" where
  "greedy_loop thr store i matched unmatched_detections unmatched_tracks =
     (if i < length unmatched_detections then
        (case find_best_track thr store (unmatched_detections ! i) unmatched_tracks of
           Some best_track \<Rightarrow>
             greedy_loop thr store (i + 1) (matched @ [(best_track, unmatched_detections ! i)])
               unmatched_detections (remove1 best_track unmatched_tracks)
         | None \<Rightarrow>
             greedy_loop thr store (i + 1) matched
               (unmatched_detections @ [unmatched_detections ! i]) unmatched_tracks)
      else Some (matched, unmatched_detections, unmatched_tracks))"

text \<open>
  \<^verbatim>\<open>list.sort(key=lambda x: x.confidence, reverse=True)\<close> is stable and keeps the
  original order of equal keys, as a stable ascending sort on the negated key does.
\<close>

definition sort_by_confidence_desc :: "det_obj list \<Rightarrow> det_obj list" where
  "sort_by_confidence_desc ds = sort_key (\<lambda>d. - dconf d) ds"

definition greedy_assignment ::
  "real \<Rightarrow> track list \<Rightarrow> det_obj list \<Rightarrow> track_ref list
     \<Rightarrow> ((track_ref \<times> det_obj) list \<times> det_obj list \<times> track_ref list) option" where
  "greedy_assignment thr store detections trks =
     greedy_loop thr store 0 [] (sort_by_confidence_desc detections) trks"

text \<open>
  \<^verbatim>\<open>associate_detections_to_tracks(detections, tracks)\<close>; it returns
  \<^verbatim>\<open>(matched, unmatched_detections, unmatched_tracks)\<close>. The reads \<^verbatim>\<open>tracks[i]\<close>,
  \<^verbatim>\<open>detections[j]\<close> and \<^verbatim>\<open>cost_matrix[i, j]\<close> are at the solver's indices, which are
  in range when the solver answers as documented; the statements about this path assume
  so (\<open>lsa_result_ok\<close>).
\<close>

definition associate_detections_to_tracks ::
  "solver option \<Rightarrow> real \<Rightarrow> track list \<Rightarrow> det_obj list \<Rightarrow> track_ref list
     \<Rightarrow> ((track_ref \<times> det_obj) list \<times> det_obj list \<times> track_ref list) option" where
  "associate_detections_to_tracks lsa thr store detections trks =
     (if length trks = 0 then Some ([], detections, [])
      else if length detections = 0 then Some ([], [], trks)
      else
        (case lsa of
           Some linear_sum_assignment \<Rightarrow>
             (let cm = cost_matrix store detections trks;
                  track_indices = fst (linear_sum_assignment cm);
                  detection_indices = snd (linear_sum_assignment cm);
                  pairs = zip track_indices detection_indices;
                  accepted = filter (\<lambda>(i, j). cm ! i ! j < 1 - thr) pairs;
                  rejected = filter (\<lambda>(i, j). \<not> cm ! i ! j < 1 - thr) pairs;
                  matched = map (\<lambda>(i, j). (trks ! i, detections ! j)) accepted;
                  unmatched_tracks =
                    map (\<lambda>(i, j). trks ! i) rejected
                    @ map (\<lambda>i. trks ! i)
                        (filter (\<lambda>i. i \<notin> set track_indices) [0..<length trks]);
                  unmatched_detections =
                    map (\<lambda>(i, j). detections ! j) rejected
                    @ map (\<lambda>j. detections ! j)
                        (filter (\<lambda>j. j \<notin> set detection_indices) [0..<length detections])
              in Some (matched, unmatched_detections, unmatched_tracks))
         | None \<Rightarrow> greedy_assignment thr store detections trks))"

subsection \<open>The per-frame update\<close>

text \<open>The loops \<^verbatim>\<open>for track, detection in matched: track.update(...)\<close>, in place.\<close>

definition apply_matches :: "(track_ref \<times> det_obj) list \<Rightarrow> track list \<Rightarrow> track list" where
  "apply_matches matched store =
     fold (\<lambda>(t, d) s. s[t := Track_update (s ! t) (dbbox d) (dconf d)]) matched store"

text \<open>
  The creation loop: one new Track per detection, appended to \<^verbatim>\<open>self.tracks\<close>, with
  \<^verbatim>\<open>self.next_id\<close> incremented. The state is the pair of the list and the counter.
\<close>

definition new_track :: "int \<Rightarrow> det_obj \<Rightarrow> track" where
  "new_track tid d =
     Track_init (dbbox d) (dconf d) (det_class_id (snd d)) (det_class_name (snd d)) tid"

definition create_track :: "det_obj \<Rightarrow> track list \<times> int \<Rightarrow> track list \<times> int" where
  "create_track d s = (fst s @ [new_track (snd s) d], snd s + 1)"

text \<open>
  The pieces of \<^verbatim>\<open>EnhancedTracker.update\<close>, in the order of the source. The
  prediction loop calls \<^verbatim>\<open>track.predict()\<close> on every track and drops the returned box.
\<close>

definition predict_all :: "track list \<Rightarrow> track list" where
  "predict_all store = map (\<lambda>t. fst (predict t)) store"

text \<open>The Detection objects of the argument, each with its position as its identity.\<close>

definition enumerate_detections :: "detection list \<Rightarrow> det_obj list" where
  "enumerate_detections detections = zip [0..<length detections] detections"

text \<open>
  The loop \<^verbatim>\<open>for det in detections\<close> that fills \<^verbatim>\<open>high_conf_detections\<close> (the
  \<^verbatim>\<open>if det.confidence >= 0.5\<close> branch) and \<^verbatim>\<open>low_conf_detections\<close> (the \<^verbatim>\<open>else\<close>).
\<close>

definition high_confidence :: "det_obj list \<Rightarrow> det_obj list" where
  "high_confidence detections = filter (\<lambda>d. dconf d \<ge> 0.5) detections"

definition low_confidence :: "det_obj list \<Rightarrow> det_obj list" where
  "low_confidence detections = filter (\<lambda>d. \<not> dconf d \<ge> 0.5) detections"

text \<open>\<^verbatim>\<open>[t for t in self.tracks if t.state == s]\<close>, as references.\<close>

definition tracks_in_state :: "track_state \<Rightarrow> track list \<Rightarrow> track_ref list" where
  "tracks_in_state s store = filter (\<lambda>i. state (store ! i) = s) [0..<length store]"

text \<open>
  The loop \<^verbatim>\<open>for track in self.tracks: if track not in all_matched_tracks:
  track.mark_missed()\<close>, over the list that by then holds the new tracks too.
\<close>

definition mark_unmatched :: "track_ref list \<Rightarrow> track list \<Rightarrow> track list" where
  "mark_unmatched all_matched_tracks store =
     map (\<lambda>i. if i \<notin> set all_matched_tracks then mark_missed (store ! i) else store ! i)
       [0..<length store]"

text \<open>
  \<^verbatim>\<open>EnhancedTracker.update\<close> up to and including the miss accounting, that is, the
  tracker right before the statement that removes old tracks. The intermediate lists
  keep the source's names; \<open>store1\<close> to \<open>store4\<close> are \<^verbatim>\<open>self.tracks\<close> after the
  prediction loop and after each of the three loops of \<^verbatim>\<open>track.update\<close> calls.
\<close>

definition update_before_eviction ::
  "solver option \<Rightarrow> tracker \<Rightarrow> detection list \<Rightarrow> tracker option" where
  "update_before_eviction lsa self detections_arg =
     (let detections = enumerate_detections detections_arg;
          store1 = predict_all (tracks self);
          high_conf_detections = high_confidence detections;
          low_conf_detections = low_confidence detections;
          confirmed_tracks = tracks_in_state Confirmed store1;
          unconfirmed_tracks = tracks_in_state Tentative store1
      in
      do {
        (matched_high_conf, unmatched_high_conf, unmatched_confirmed) \<leftarrow>
          associate_detections_to_tracks lsa (iou_threshold self) store1
            high_conf_detections confirmed_tracks;
        let store2 = apply_matches matched_high_conf store1;
        (matched_unconfirmed, unmatched_unconfirmed, unmatched_unconfirmed_tracks) \<leftarrow>
          associate_detections_to_tracks lsa (iou_threshold self) store2
            unmatched_high_conf unconfirmed_tracks;
        let store3 = apply_matches matched_unconfirmed store2;
        let unmatched_confirmed_after_high =
          filter (\<lambda>t. t \<notin> set (map fst matched_unconfirmed)) unmatched_confirmed;
        (matched_low_conf, unmatched_low_conf, unused) \<leftarrow>
          associate_detections_to_tracks lsa (iou_threshold self) store3
            low_conf_detections unmatched_confirmed_after_high;
        let store4 = apply_matches matched_low_conf store3;
        let created =
          fold create_track
            (filter (\<lambda>d. d \<notin> set (map snd matched_unconfirmed)) unmatched_high_conf)
            (store4, next_id self);
        let all_matched_tracks =
          map fst (matched_high_conf @ matched_unconfirmed @ matched_low_conf);
        Some (self\<lparr>frame_count := frame_count self + 1,
                   tracks := mark_unmatched all_matched_tracks (fst created),
                   next_id := snd created\<rparr>)
      })"

text \<open>
  The last statement,
  \<^verbatim>\<open>self.tracks = [t for t in self.tracks if t.time_since_update < self.max_age]\<close>.
\<close>

definition remove_old_tracks :: "tracker \<Rightarrow> tracker" where
  "remove_old_tracks self =
     self\<lparr>tracks := filter (\<lambda>t. time_since_update t < max_age self) (tracks self)\<rparr>"

text \<open>
  \<^verbatim>\<open>EnhancedTracker.update(detections)\<close>: the tracker after the call; the list it returns
  is \<^verbatim>\<open>self.tracks\<close>, the \<open>tracks\<close> of the result.
\<close>

definition update :: "solver option \<Rightarrow> tracker \<Rightarrow> detection list \<Rightarrow> tracker option" where
  "update lsa self detections =
     map_option remove_old_tracks (update_before_eviction lsa self detections)"

text \<open>A session of calls, one list of detections per call, in order.\<close>

fun update_all :: "solver option \<Rightarrow> tracker \<Rightarrow> detection list list \<Rightarrow> tracker option" where
  "update_all lsa self [] = Some self"
| "update_all lsa self (ds # dss) =
     (case update lsa self ds of None \<Rightarrow> None | Some self' \<Rightarrow> update_all lsa self' dss)"

section \<open>TrackingService\<close>

record tracking_service =
  confidence_threshold :: real
  service_iou_threshold :: real
  service_tracker :: tracker
  min_track_duration :: int
  max_tracks_per_frame :: int
  track_confidence_threshold :: real
  frame_skip :: int

text \<open>
  \<^verbatim>\<open>TrackingService.__init__(confidence_threshold=0.5, iou_threshold=0.45,
  max_objects_per_frame=10)\<close>.
\<close>

definition TrackingService_init :: "real \<Rightarrow> real \<Rightarrow> int \<Rightarrow> tracking_service" where
  "TrackingService_init conf_thr iou_thr max_objects_per_frame =
     \<lparr> confidence_threshold = conf_thr, service_iou_threshold = iou_thr,
       service_tracker = EnhancedTracker_init 30 3 iou_thr,
       min_track_duration = 3, max_tracks_per_frame = max_objects_per_frame,
       track_confidence_threshold = 0.6, frame_skip = 2 \<rparr>"

text \<open>
  The slice \<^verbatim>\<open>xs[:k]\<close> for a Python integer \<open>k\<close>: the first \<open>k\<close> entries, and for a
  negative \<open>k\<close> all but the last \<open>-k\<close>.
\<close>

definition slice_to :: "int \<Rightarrow> 'a list \<Rightarrow> 'a list" where
  "slice_to k xs = (if k \<ge> 0 then take (nat k) xs else take (length xs - nat (- k)) xs)"

text \<open>
  \<^verbatim>\<open>detect_objects_in_frame\<close>: the YOLO model is outside the repository; it is the
  parameter \<open>yolo\<close>, giving for a frame one Detection per box, or \<open>None\<close> when it
  raises (the method then returns the empty list). Boxes under the confidence threshold
  are skipped.
\<close>

definition detect_objects_in_frame ::
  "('f \<Rightarrow> detection list option) \<Rightarrow> tracking_service \<Rightarrow> 'f \<Rightarrow> detection list" where
  "detect_objects_in_frame yolo self frame =
     (case yolo frame of
        None \<Rightarrow> []
      | Some boxes \<Rightarrow> filter (\<lambda>d. \<not> det_confidence d < confidence_threshold self) boxes)"

text \<open>
  \<^verbatim>\<open>filter_detections\<close>: \<^verbatim>\<open>sorted(..., reverse=True)\<close> is stable, as in
  \<^verbatim>\<open>greedy_assignment\<close>.
\<close>

definition filter_detections :: "tracking_service \<Rightarrow> detection list \<Rightarrow> detection list" where
  "filter_detections self detections =
     (let sorted_detections = sort_key (\<lambda>d. - det_confidence d) detections;
          max_detections = min (int (length sorted_detections)) (max_tracks_per_frame self)
      in slice_to max_detections sorted_detections)"

text \<open>
  One entry of a frame's \<^verbatim>\<open>'tracks'\<close> list. The dummy results carry no
  \<^verbatim>\<open>'quality'\<close> key, hence the option.
\<close>

record track_data =
  td_track_id :: int
  td_bbox :: bbox
  td_confidence :: real
  td_class_name :: string
  td_class_id :: int
  td_hits :: int
  td_age :: int
  td_state :: track_state
  td_quality :: "track_quality option"

definition format_track :: "track \<Rightarrow> track_data" where
  "format_track t =
     \<lparr> td_track_id = track_id t, td_bbox = bbox t, td_confidence = confidence t,
       td_class_name = class_name t, td_class_id = class_id t, td_hits = hits t,
       td_age = age t, td_state = state t, td_quality = Some (get_track_quality t) \<rparr>"

record frame_result =
  frame_number :: int
  timestamp :: int
  fr_tracks :: "track_data list"

text \<open>
  The part of the loop body of \<^verbatim>\<open>detect_and_track\<close> after \<^verbatim>\<open>self.tracker.update\<close>
  returned \<^verbatim>\<open>tracked_objects\<close>: the cap (a slice, which builds a new list), then the
  loop that formats the tracks with enough hits.
\<close>

definition emit_tracks :: "tracking_service \<Rightarrow> track list \<Rightarrow> track_data list" where
  "emit_tracks self tracked_objects =
     (let capped = (if int (length tracked_objects) > max_tracks_per_frame self
                    then slice_to (max_tracks_per_frame self) tracked_objects
                    else tracked_objects)
      in map format_track (filter (\<lambda>t. hits t \<ge> min_track_duration self) capped))"

text \<open>
  The loop body of \<^verbatim>\<open>detect_and_track\<close> for a frame that is not skipped, from the
  detections of the frame on: the service after the frame and the frame's result.
\<close>

definition process_frame ::
  "solver option \<Rightarrow> tracking_service \<Rightarrow> nat \<Rightarrow> detection list
     \<Rightarrow> (tracking_service \<times> frame_result) option" where
  "process_frame lsa self frame_idx detections =
     (case update lsa (service_tracker self) (filter_detections self detections) of
        None \<Rightarrow> None
      | Some trk \<Rightarrow>
          Some (self\<lparr>service_tracker := trk\<rparr>,
                \<lparr> frame_number = int frame_idx, timestamp = int frame_idx * 500,
                  fr_tracks = emit_tracks self (tracks trk) \<rparr>))"

text \<open>
  What ends the \<^verbatim>\<open>try\<close> block of \<^verbatim>\<open>detect_and_track\<close> early:
  \<^verbatim>\<open>frame_idx % self.frame_skip\<close> raises \<^verbatim>\<open>ZeroDivisionError\<close> when
  \<^verbatim>\<open>frame_skip\<close> is 0, and a call of \<^verbatim>\<open>self.tracker.update\<close> that does not
  return (\<open>None\<close>) is the greedy loop appending to its list round after round, which
  the interpreter ends with \<^verbatim>\<open>MemoryError\<close>.
\<close>

datatype py_exception = ZeroDivisionError | MemoryError

text \<open>
  The loop \<^verbatim>\<open>for frame_idx, frame in enumerate(frames)\<close>: the exception that ended
  it, or the service and the frame results after the last frame. For a non-zero divisor
  \<open>mod\<close> on \<open>int\<close> is Python's \<^verbatim>\<open>%\<close> (the result has the sign of the divisor).
\<close>

fun track_frames ::
  "solver option \<Rightarrow> ('f \<Rightarrow> detection list option) \<Rightarrow> nat \<Rightarrow> 'f list \<Rightarrow> tracking_service
     \<Rightarrow> frame_result list \<Rightarrow> py_exception + tracking_service \<times> frame_result list" where
  "track_frames lsa yolo frame_idx [] self frame_results = Inr (self, frame_results)"
| "track_frames lsa yolo frame_idx (frame # frames) self frame_results =
     (if frame_skip self = 0 then Inl ZeroDivisionError
      else if int frame_idx mod frame_skip self \<noteq> 0
      then track_frames lsa yolo (frame_idx + 1) frames self frame_results
      else (case process_frame lsa self frame_idx (detect_objects_in_frame yolo self frame) of
              None \<Rightarrow> Inl MemoryError
            | Some (self', frame_result) \<Rightarrow>
                track_frames lsa yolo (frame_idx + 1) frames self'
                  (frame_results @ [frame_result])))"

text \<open>
  \<^verbatim>\<open>calculate_tracking_stats\<close>. The dictionary \<^verbatim>\<open>track_durations\<close> is an association
  list in insertion order with unique keys. The source reads a key only right after it
  made sure the key is there, so the value \<open>dict_get\<close> gives for a missing key is never
  used.
\<close>

definition dict_set :: "int \<Rightarrow> int \<Rightarrow> (int \<times> int) list \<Rightarrow> (int \<times> int) list" where
  "dict_set k v d =
     (if k \<in> set (map fst d) then map (\<lambda>(k', v'). if k' = k then (k', v) else (k', v')) d
      else d @ [(k, v)])"

definition dict_get :: "(int \<times> int) list \<Rightarrow> int \<Rightarrow> int" where
  "dict_get d k = (case map_of d k of Some v \<Rightarrow> v | None \<Rightarrow> 0)"

record tracking_stats =
  st_total_tracks :: int
  st_total_detections :: int
  st_avg_track_duration :: real
  st_track_durations :: "(int \<times> int) list"

text \<open>The body of the inner loop \<^verbatim>\<open>for track in frame_result['tracks']\<close>.\<close>

definition count_track ::
  "track_data \<Rightarrow> int \<times> (int \<times> int) list \<Rightarrow> int \<times> (int \<times> int) list" where
  "count_track track acc =
     (let total_tracks = fst acc;
          track_durations = snd acc;
          track_id = td_track_id track;
          track_durations1 = (if track_id \<notin> set (map fst track_durations)
                              then dict_set track_id 0 track_durations
                              else track_durations);
          track_durations2 =
            dict_set track_id (dict_get track_durations1 track_id + 1) track_durations1
      in (max total_tracks track_id, track_durations2))"

text \<open>The body of the outer loop \<^verbatim>\<open>for frame_result in frame_results\<close>.\<close>

definition count_frame ::
  "frame_result \<Rightarrow> int \<times> int \<times> (int \<times> int) list \<Rightarrow> int \<times> int \<times> (int \<times> int) list" where
  "count_frame fr acc =
     (let total_tracks = fst acc;
          total_detections = fst (snd acc);
          track_durations = snd (snd acc);
          counted = fold count_track (fr_tracks fr) (total_tracks, track_durations)
      in (fst counted, total_detections + int (length (fr_tracks fr)), snd counted))"

definition calculate_tracking_stats :: "frame_result list \<Rightarrow> tracking_stats" where
  "calculate_tracking_stats frame_results =
     (let acc = fold count_frame frame_results (0, 0, []);
          track_durations = snd (snd acc);
          avg_track_duration =
            (if track_durations \<noteq> []
             then real_of_int (sum_list (map snd track_durations))
                  / real (length track_durations)
             else 0)
      in \<lparr> st_total_tracks = fst acc, st_total_detections = fst (snd acc),
           st_avg_track_duration = avg_track_duration,
           st_track_durations = track_durations \<rparr>)"

record tracking_result =
  total_frames :: int
  total_tracks :: int
  frame_results :: "frame_result list"
  tracking_stats :: tracking_stats

text \<open>
  The aggregation at the end of \<^verbatim>\<open>detect_and_track\<close>; \<^verbatim>\<open>all_tracks\<close> is the
  concatenation of the frames' track lists, and the top-level \<^verbatim>\<open>'total_tracks'\<close> is
  \<^verbatim>\<open>len(set(track['track_id'] for track in all_tracks))\<close>.
\<close>

definition aggregate_results :: "nat \<Rightarrow> frame_result list \<Rightarrow> tracking_result" where
  "aggregate_results n_frames frs =
     (let all_tracks = concat (map fr_tracks frs)
      in \<lparr> total_frames = int n_frames,
           total_tracks = int (card (set (map td_track_id all_tracks))),
           frame_results = frs,
           tracking_stats = calculate_tracking_stats frs \<rparr>)"

text \<open>\<^verbatim>\<open>get_dummy_tracking_results\<close>: one fixed track on every fifth frame.\<close>

definition dummy_track :: track_data where
  "dummy_track =
     \<lparr> td_track_id = 1, td_bbox = (100, 100, 200, 200), td_confidence = 0.8,
       td_class_name = ''person'', td_class_id = 0, td_hits = 3, td_age = 3,
       td_state = Confirmed, td_quality = None \<rparr>"

definition get_dummy_tracking_results :: "'f list \<Rightarrow> tracking_result" where
  "get_dummy_tracking_results frames =
     (let frs = map (\<lambda>i. \<lparr> frame_number = int i, timestamp = int i * 500,
                            fr_tracks = [dummy_track] \<rparr>)
                  (filter (\<lambda>i. i mod 5 = 0) [0..<length frames])
      in \<lparr> total_frames = int (length frames), total_tracks = 1, frame_results = frs,
           tracking_stats =
             \<lparr> st_total_tracks = 1, st_total_detections = int (length frs),
               st_avg_track_duration = real (length frs),
               st_track_durations = [(1, int (length frs))] \<rparr> \<rparr>)"

text \<open>
  \<^verbatim>\<open>detect_and_track(frames)\<close>, the dictionary it returns: without a YOLO model the
  dummy results; otherwise the loop and the aggregation, and the dummy results again when
  the loop raised (\<^verbatim>\<open>except Exception\<close>). The tracker that the call leaves in
  \<^verbatim>\<open>self.tracker\<close> is the one \<open>track_frames\<close> gives when the loop ends normally.
\<close>

definition detect_and_track ::
  "solver option \<Rightarrow> ('f \<Rightarrow> detection list option) option \<Rightarrow> tracking_service \<Rightarrow> 'f list
     \<Rightarrow> tracking_result" where
  "detect_and_track lsa yolo_model self frames =
     (case yolo_model of
        None \<Rightarrow> get_dummy_tracking_results frames
      | Some yolo \<Rightarrow>
          (case track_frames lsa yolo 0 frames self [] of
             Inl e \<Rightarrow> get_dummy_tracking_results frames
           | Inr (self', frs) \<Rightarrow> aggregate_results (length frames) frs))"

section \<open>Predicates of the statements\<close>

text \<open>A match whose IoU exceeds the threshold, read through the list of tracks.\<close>

definition over_threshold :: "real \<Rightarrow> track list \<Rightarrow> track_ref \<times> det_obj \<Rightarrow> bool" where
  "over_threshold thr store p = (iou (bbox (store ! fst p)) (dbbox (snd p)) > thr)"

text \<open>
  The greedy loop at position \<open>i\<close> still has a detection ahead of it that no track of
  the pool reaches above the threshold.
\<close>

definition stuck :: "real \<Rightarrow> track list \<Rightarrow> nat \<Rightarrow> det_obj list \<Rightarrow> track_ref list \<Rightarrow> bool" where
  "stuck thr store i ud ut =
     (\<exists>k. i \<le> k \<and> k < length ud
          \<and> (\<forall>t \<in> set ut. \<not> iou (bbox (store ! t)) (dbbox (ud ! k)) > thr))"

text \<open>
  The solver, when there is one, answers the cost matrix of this call as the library
  documents (\<open>lsa_result_ok\<close>).
\<close>

definition solver_ok :: "solver option \<Rightarrow> track list \<Rightarrow> det_obj list \<Rightarrow> track_ref list \<Rightarrow> bool" where
  "solver_ok lsa store detections trks =
     (case lsa of
        None \<Rightarrow> True
      | Some linear_sum_assignment \<Rightarrow>
          lsa_result_ok (length trks) (length detections)
            (linear_sum_assignment (cost_matrix store detections trks)))"



text \<open>
  The per-frame policy as claim C1 words it, for comparison with \<open>emit_tracks\<close>: first
  the output filter on hits, then the cap on what it kept.
\<close>

definition emit_tracks_as_claimed :: "tracking_service \<Rightarrow> track list \<Rightarrow> track_data list" where
  "emit_tracks_as_claimed self tracked_objects =
     take (nat (max_tracks_per_frame self))
       (map format_track (filter (\<lambda>t. hits t \<ge> min_track_duration self) tracked_objects))"

text \<open>
  What a call of \<^verbatim>\<open>EnhancedTracker.update\<close> does to a track that it matches with no
  detection: \<^verbatim>\<open>track.predict()\<close> in the prediction loop, then
  \<^verbatim>\<open>track.mark_missed()\<close>.
\<close>

definition missed_call :: "track \<Rightarrow> track" where
  "missed_call t = mark_missed (fst (predict t))"

text \<open>
  The Track object made from the detection \<open>d\<close> with id \<open>tid\<close>, as it is \<open>k\<close> calls
  after the call that created it when none of them matched it, that is, before its first
  \<^verbatim>\<open>update()\<close>. The creating call appends the new object to \<^verbatim>\<open>self.tracks\<close> and
  then runs its miss accounting over that list.
\<close>

definition never_updated :: "int \<Rightarrow> det_obj \<Rightarrow> nat \<Rightarrow> track" where
  "never_updated tid d k = (missed_call ^^ k) (mark_missed (new_track tid d))"

text \<open>
  The solver, when there is one, answers every cost matrix that has a row and a column
  as the library documents.
\<close>

definition solver_answers_as_documented :: "solver option \<Rightarrow> bool" where
  "solver_answers_as_documented lsa =
     (\<forall>store detections trks. trks \<noteq> [] \<longrightarrow> detections \<noteq> [] \<longrightarrow>
        solver_ok lsa store detections trks)"




section \<open>Example inputs\<close>

text \<open>
  Concrete tracks, detections and services at which the theorems below are instantiated.
  \<open>person_box\<close> is the box of scenario 1 of the specification.
\<close>

definition person_box :: bbox where
  "person_box = (0, 0, 10, 10)"

definition far_box :: bbox where
  "far_box = (50, 50, 60, 60)"

definition fresh_track :: track where
  "fresh_track = Track_init person_box 0.9 0 ''person'' 1"

definition twice_seen_track :: track where
  "twice_seen_track = Track_update fresh_track person_box 0.9"

definition moving_track :: track where
  "moving_track = Track_update fresh_track (10, 0, 20, 10) 0.9"

definition low_hits_track :: track where
  "low_hits_track = mark_missed fresh_track"

definition stable_track :: track where
  "stable_track =
     Track_update (Track_update (Track_init far_box 0.9 0 ''person'' 2) far_box 0.9)
       far_box 0.9"

definition person_detection :: detection where
  "person_detection =
     \<lparr> det_bbox = person_box, det_confidence = 0.9, det_class_id = 0,
       det_class_name = ''person'' \<rparr>"

definition far_detection :: detection where
  "far_detection =
     \<lparr> det_bbox = far_box, det_confidence = 0.9, det_class_id = 0,
       det_class_name = ''person'' \<rparr>"

definition default_service :: tracking_service where
  "default_service = TrackingService_init 0.5 0.45 10"

definition one_object_service :: tracking_service where
  "one_object_service = TrackingService_init 0.5 0.45 1"

definition emitted_2 :: track_data where
  "emitted_2 = format_track stable_track"

text \<open>
  The frame results of a video of five frames (frames 0, 2 and 4 are processed) in which
  only track 2 is ever emitted, in frame 4.
\<close>

definition only_track_2_emitted :: "frame_result list" where
  "only_track_2_emitted =
     [\<lparr> frame_number = 0, timestamp = 0, fr_tracks = [] \<rparr>,
      \<lparr> frame_number = 2, timestamp = 1000, fr_tracks = [] \<rparr>,
      \<lparr> frame_number = 4, timestamp = 2000, fr_tracks = [emitted_2] \<rparr>]"

text \<open>
  The assignment of row \<open>k\<close> to column \<open>k\<close>; it is an optimal one for the cost matrix
  of \<open>two_tracks\<close> and \<open>two_detections\<close> below.
\<close>

definition diagonal :: solver where
  "diagonal cm =
     ([0..<min (length cm) (length (hd cm))], [0..<min (length cm) (length (hd cm))])"

definition lost_box :: bbox where
  "lost_box = (200, 200, 210, 210)"

definition lost_detection :: detection where
  "lost_detection =
     \<lparr> det_bbox = lost_box, det_confidence = 0.9, det_class_id = 0,
       det_class_name = ''person'' \<rparr>"

definition two_tracks :: "track list" where
  "two_tracks = [fresh_track, stable_track]"

definition two_refs :: "track_ref list" where
  "two_refs = [0, 1]"

definition two_detections :: "det_obj list" where
  "two_detections = [(0, person_detection), (1, lost_detection)]"

text \<open>
  A tracker with \<^verbatim>\<open>max_age=2\<close> over three frames: a person is seen, nothing is seen,
  the same person is seen again. \<open>tracker_in_frame_2\<close> is the tracker inside the second
  call, right before old tracks are removed.
\<close>

definition short_lived_tracker :: tracker where
  "short_lived_tracker = EnhancedTracker_init 2 3 0.3"

definition first_track :: track where
  "first_track = mark_missed (new_track 1 (0, person_detection))"

definition second_track :: track where
  "second_track = mark_missed (new_track 2 (0, person_detection))"

definition tracker_after_frame_1 :: tracker where
  "tracker_after_frame_1 =
     \<lparr> max_age = 2, min_hits = 3, iou_threshold = 0.3, tracks = [first_track],
       frame_count = 1, next_id = 2 \<rparr>"




text \<open>
  The default tracker over four frames, each with the one detection of scenario 1, when
  \<^verbatim>\<open>scipy\<close> cannot be imported: the track as it is after each frame, the tracker after
  the third frame and the tracker after the fourth.
\<close>

definition default_tracker :: tracker where
  "default_tracker = EnhancedTracker_init 30 3 0.3"

definition seen_twice :: track where
  "seen_twice = Track_update (fst (predict first_track)) person_box 0.9"

definition seen_thrice :: track where
  "seen_thrice = Track_update (fst (predict seen_twice)) person_box 0.9"

definition seen_four_times :: track where
  "seen_four_times = Track_update (fst (predict seen_thrice)) person_box 0.9"

definition tracker_with_confirmed_track :: tracker where
  "tracker_with_confirmed_track =
     \<lparr> max_age = 30, min_hits = 3, iou_threshold = 0.3, tracks = [seen_thrice],
       frame_count = 3, next_id = 2 \<rparr>"

definition tracker_with_duplicate_track :: tracker where
  "tracker_with_duplicate_track =
     \<lparr> max_age = 30, min_hits = 3, iou_threshold = 0.3,
       tracks = [seen_four_times, second_track], frame_count = 4, next_id = 3 \<rparr>"

text \<open>
  A detection whose box has \<open>x2 < x1\<close> and \<open>y2 < y1\<close>, the track made from it, and the
  default service after a first frame with the one detection of scenario 1.
\<close>

definition degenerate_detection :: detection where
  "degenerate_detection =
     \<lparr> det_bbox = (10, 10, 5, 5), det_confidence = 0.9, det_class_id = 0,
       det_class_name = ''person'' \<rparr>"


definition service_after_frame_0 :: tracking_service where
  "service_after_frame_0 =
     default_service\<lparr>service_tracker :=
       \<lparr> max_age = 30, min_hits = 3, iou_threshold = 0.45, tracks = [first_track],
         frame_count = 1, next_id = 2 \<rparr>\<rparr>"

text \<open>
  The tracker of \<open>service_after_frame_0\<close>, and that tracker after a second frame
  whose one detection does not overlap track 1: a detection at \<open>far_box\<close>, and the
  degenerate one.
\<close>

definition tracker_after_frame_0 :: tracker where
  "tracker_after_frame_0 =
     \<lparr> max_age = 30, min_hits = 3, iou_threshold = 0.45, tracks = [first_track],
       frame_count = 1, next_id = 2 \<rparr>"

definition tracker_with_far_track :: tracker where
  "tracker_with_far_track =
     \<lparr> max_age = 30, min_hits = 3, iou_threshold = 0.45,
       tracks = [missed_call first_track, mark_missed (new_track 2 (0, far_detection))],
       frame_count = 2, next_id = 3 \<rparr>"


section \<open>Properties of Track\<close>

lemmas Track_update_steps =
  Track_update_def restate_def rescore_quality_def rescore_consistency_def
  rescore_stability_def trim_history_def record_observation_def

lemma restate_fields:
  "hits (restate t) = hits t" "track_id (restate t) = track_id t" "bbox (restate t) = bbox t"
  "confidence (restate t) = confidence t" "time_since_update (restate t) = time_since_update t"
  "class_id (restate t) = class_id t" "class_name (restate t) = class_name t"
  "quality_score (restate t) = quality_score t" "stability_score (restate t) = stability_score t"
  "consistency_score (restate t) = consistency_score t" "age (restate t) = age t"
  by (simp_all add: restate_def)

lemma rescore_quality_fields:
  "hits (rescore_quality t) = hits t" "track_id (rescore_quality t) = track_id t"
  "bbox (rescore_quality t) = bbox t" "confidence (rescore_quality t) = confidence t"
  "time_since_update (rescore_quality t) = time_since_update t"
  "class_id (rescore_quality t) = class_id t" "class_name (rescore_quality t) = class_name t"
  "stability_score (rescore_quality t) = stability_score t"
  "consistency_score (rescore_quality t) = consistency_score t" "age (rescore_quality t) = age t"
  "quality_score (rescore_quality t) = (confidence t + stability_score t + consistency_score t) / 3"
  by (simp_all add: rescore_quality_def)

lemma rescore_consistency_fields:
  "hits (rescore_consistency t) = hits t" "track_id (rescore_consistency t) = track_id t"
  "bbox (rescore_consistency t) = bbox t" "confidence (rescore_consistency t) = confidence t"
  "time_since_update (rescore_consistency t) = time_since_update t"
  "class_id (rescore_consistency t) = class_id t"
  "class_name (rescore_consistency t) = class_name t" "age (rescore_consistency t) = age t"
  by (simp_all add: rescore_consistency_def)

lemma rescore_stability_fields:
  "hits (rescore_stability t) = hits t" "track_id (rescore_stability t) = track_id t"
  "bbox (rescore_stability t) = bbox t" "confidence (rescore_stability t) = confidence t"
  "time_since_update (rescore_stability t) = time_since_update t"
  "class_id (rescore_stability t) = class_id t"
  "class_name (rescore_stability t) = class_name t" "age (rescore_stability t) = age t"
  by (simp_all add: rescore_stability_def)

lemma trim_history_fields:
  "hits (trim_history t) = hits t" "track_id (trim_history t) = track_id t"
  "bbox (trim_history t) = bbox t" "confidence (trim_history t) = confidence t"
  "time_since_update (trim_history t) = time_since_update t"
  "class_id (trim_history t) = class_id t"
  "class_name (trim_history t) = class_name t" "age (trim_history t) = age t"
  by (simp_all add: trim_history_def)

lemma record_observation_fields:
  "hits (record_observation t b c) = hits t + 1"
  "track_id (record_observation t b c) = track_id t"
  "bbox (record_observation t b c) = b" "confidence (record_observation t b c) = c"
  "time_since_update (record_observation t b c) = 0"
  "class_id (record_observation t b c) = class_id t"
  "class_name (record_observation t b c) = class_name t"
  "age (record_observation t b c) = age t + 1"
  by (simp_all add: record_observation_def)

lemmas step_fields = restate_fields rescore_quality_fields rescore_consistency_fields
  rescore_stability_fields trim_history_fields record_observation_fields

lemma Track_update_fields:
  "hits (Track_update t b c) = hits t + 1"
  "track_id (Track_update t b c) = track_id t"
  "bbox (Track_update t b c) = b"
  "confidence (Track_update t b c) = c"
  "time_since_update (Track_update t b c) = 0"
  "class_id (Track_update t b c) = class_id t"
  "class_name (Track_update t b c) = class_name t"
  "age (Track_update t b c) = age t + 1"
  by (simp_all add: Track_update_def step_fields)

lemma restate_state:
  "0 \<le> hits t - 1 \<Longrightarrow>
   state (restate t) =
     (if 3 \<le> hits t \<and> 0.6 < quality_score t then Confirmed else Tentative)"
  by (simp add: restate_def)

lemma mark_missed_fields:
  "hits (mark_missed t) = hits t"
  "track_id (mark_missed t) = track_id t"
  "bbox (mark_missed t) = bbox t"
  "time_since_update (mark_missed t) = time_since_update t + 1"
  "state (mark_missed t) = state t"
  by (simp_all add: mark_missed_def)

lemma Track_init_fields:
  "hits (Track_init b c cid cname tid) = 1"
  "track_id (Track_init b c cid cname tid) = tid"
  "bbox (Track_init b c cid cname tid) = b"
  "confidence (Track_init b c cid cname tid) = c"
  "time_since_update (Track_init b c cid cname tid) = 0"
  "state (Track_init b c cid cname tid) = Tentative"
  by (simp_all add: Track_init_def)

lemma predict_bbox: "bbox (fst (predict t)) = bbox t"
  by (simp add: predict_def Let_def)

lemma predict_fields:
  "track_id (fst (predict t)) = track_id t"
  "state (fst (predict t)) = state t"
  "hits (fst (predict t)) = hits t"
  "time_since_update (fst (predict t)) = time_since_update t"
  by (simp_all add: predict_def Let_def)

subsection \<open>Evaluating the scores of a track that does not move\<close>

lemma bbox_variations_3:
  "bbox_variations [a, b, c] = [calculate_bbox_variation a b, calculate_bbox_variation b c]"
  by (simp add: bbox_variations_def upt_rec)

lemma calculate_bbox_variation_same: "calculate_bbox_variation a a = 0"
  by (simp add: calculate_bbox_variation_def)

lemma np_mean_zero2: "np_mean [0, 0] = 0"
  by (simp add: np_mean_def)

lemma np_std_const3: "np_std [c, c, c] = 0"
  by (simp add: np_std_def np_mean_def)

lemma last_n_short: "length xs \<le> n \<Longrightarrow> last_n n xs = xs"
  by (simp add: last_n_def)

lemma twice_seen_track_eval:
  "twice_seen_track =
     \<lparr> bbox = (0, 0, 10, 10), confidence = 0.9, class_id = 0, class_name = ''person'',
       track_id = 1, hits = 2, age = 1, time_since_update = 0, state = Tentative,
       history = [(0, 0, 10, 10), (0, 0, 10, 10)], confidence_history = [0.9, 0.9],
       velocity = (0, 0), acceleration = (0, 0),
       stability_score = 1, consistency_score = 1, quality_score = (0.9 + 1 + 1) / 3 \<rparr>"
  by (simp add: twice_seen_track_def fresh_track_def person_box_def Track_init_def
      Track_update_steps)

lemma thrice_seen_track_eval:
  "Track_update twice_seen_track person_box 0.9 =
     \<lparr> bbox = (0, 0, 10, 10), confidence = 0.9, class_id = 0, class_name = ''person'',
       track_id = 1, hits = 3, age = 2, time_since_update = 0, state = Confirmed,
       history = [(0, 0, 10, 10), (0, 0, 10, 10), (0, 0, 10, 10)],
       confidence_history = [0.9, 0.9, 0.9],
       velocity = (0, 0), acceleration = (0, 0),
       stability_score = 1, consistency_score = 1, quality_score = (0.9 + 1 + 1) / 3 \<rparr>"
  unfolding twice_seen_track_eval
  by (simp add: person_box_def Track_update_steps last_n_short bbox_variations_3
      calculate_bbox_variation_same np_mean_zero2 np_std_const3)

subsection \<open>The confirmation rule\<close>

text \<open>
  C5. Right after \<^verbatim>\<open>update(bbox, confidence)\<close> on a track whose hit count is not
  negative (the constructor starts it at 1 and only \<^verbatim>\<open>update\<close> changes it, by adding 1):
  the state is confirmed exactly when the new hit count is at least 3 and the new quality
  score exceeds 0.6, it is tentative otherwise, the hit count is at least 1, and the
  quality score is the mean of confidence, stability and consistency as they are after
  the call.
\<close>

theorem track_update_confirmation_rule:
  assumes "0 \<le> hits t"
  shows "(state (Track_update t b c) = Confirmed) =
           (3 \<le> hits (Track_update t b c) \<and> 0.6 < quality_score (Track_update t b c))
         \<and> (state (Track_update t b c) = Tentative) =
           (\<not> (3 \<le> hits (Track_update t b c) \<and> 0.6 < quality_score (Track_update t b c)))
         \<and> 1 \<le> hits (Track_update t b c)
         \<and> quality_score (Track_update t b c) =
             (confidence (Track_update t b c) + stability_score (Track_update t b c)
              + consistency_score (Track_update t b c)) / 3"
proof -
  define u where "u = rescore_quality (rescore_consistency (rescore_stability
       (trim_history (record_observation t b c))))"
  have tu: "Track_update t b c = restate u" by (simp add: Track_update_def u_def)
  have h: "hits u = hits t + 1" by (simp add: u_def step_fields)
  have q: "quality_score u = (confidence u + stability_score u + consistency_score u) / 3"
    by (simp add: u_def step_fields)
  have h1: "0 \<le> hits u - 1" using assms h by simp
  have s: "state (restate u) =
             (if 3 \<le> hits u \<and> 0.6 < quality_score u then Confirmed else Tentative)"
    by (rule restate_state [OF h1])
  have c1: "(state (restate u) = Confirmed) = (3 \<le> hits u \<and> 0.6 < quality_score u)"
    unfolding s by (cases "3 \<le> hits u \<and> 0.6 < quality_score u") simp_all
  have c2: "(state (restate u) = Tentative) = (\<not> (3 \<le> hits u \<and> 0.6 < quality_score u))"
    unfolding s by (cases "3 \<le> hits u \<and> 0.6 < quality_score u") simp_all
  have c3: "1 \<le> hits u" using h1 by simp
  show ?thesis
    unfolding tu restate_fields using c1 c2 c3 q by blast
qed

text \<open>
  The rule at the third sighting of scenario 1: the track comes out confirmed, with 3
  hits and quality \<open>(0.9 + 1 + 1) / 3\<close>.
\<close>

theorem track_update_confirmation_rule_witness:
  "0 \<le> hits twice_seen_track
   \<and> ((state (Track_update twice_seen_track person_box 0.9) = Confirmed) =
        (3 \<le> hits (Track_update twice_seen_track person_box 0.9)
         \<and> 0.6 < quality_score (Track_update twice_seen_track person_box 0.9))
      \<and> (state (Track_update twice_seen_track person_box 0.9) = Tentative) =
        (\<not> (3 \<le> hits (Track_update twice_seen_track person_box 0.9)
            \<and> 0.6 < quality_score (Track_update twice_seen_track person_box 0.9)))
      \<and> 1 \<le> hits (Track_update twice_seen_track person_box 0.9)
      \<and> quality_score (Track_update twice_seen_track person_box 0.9) =
          (confidence (Track_update twice_seen_track person_box 0.9)
           + stability_score (Track_update twice_seen_track person_box 0.9)
           + consistency_score (Track_update twice_seen_track person_box 0.9)) / 3)
   \<and> state (Track_update twice_seen_track person_box 0.9) = Confirmed
   \<and> hits (Track_update twice_seen_track person_box 0.9) = 3"
proof -
  have h: "0 \<le> hits twice_seen_track"
    by (simp add: twice_seen_track_eval)
  have e: "state (Track_update twice_seen_track person_box 0.9) = Confirmed
           \<and> hits (Track_update twice_seen_track person_box 0.9) = 3"
    by (simp add: thrice_seen_track_eval)
  show ?thesis
    by (rule conjI [OF h conjI [OF track_update_confirmation_rule [OF h] e]])
qed

subsection \<open>Prediction\<close>

lemma predict_frame:
  "fst (predict t) =
     t\<lparr>velocity :=
         (if 2 \<le> length (history t)
          then (0.7 * fst (velocity t)
                  + 0.3 * ((b0 (last (history t)) + b2 (last (history t))) / 2
                           - (b0 (history t ! (length (history t) - 2))
                              + b2 (history t ! (length (history t) - 2))) / 2),
                0.7 * snd (velocity t)
                  + 0.3 * ((b1 (last (history t)) + b3 (last (history t))) / 2
                           - (b1 (history t ! (length (history t) - 2))
                              + b3 (history t ! (length (history t) - 2))) / 2))
          else velocity t)\<rparr>"
  by (cases "history t = []") (auto simp: predict_def Let_def last_conv_nth)

lemma cost_matrix_predict:
  assumes "list_all (\<lambda>r. r < length store) refs"
  shows "cost_matrix (predict_all store) ds refs =
           map (\<lambda>r. map (\<lambda>d. 1 - iou (bbox (store ! r)) (dbbox d)) ds) refs"
  using assms by (simp add: cost_matrix_def predict_all_def list_all_iff predict_bbox)

text \<open>
  C9. \<^verbatim>\<open>predict()\<close> changes the velocity and nothing else: the track after the call is
  the track before it with the velocity replaced, by \<open>0.7 * old + 0.3 * displacement\<close> of
  the centre between the last two history entries when there are two, and by itself
  otherwise; so bbox, history, confidence, the scores, hits, age, time_since_update and
  state are as before. The cost matrix that \<^verbatim>\<open>EnhancedTracker.update\<close> builds after
  the prediction loop (\<open>predict_all\<close>), over tracks of \<^verbatim>\<open>self.tracks\<close>, is the one of the bbox fields
  the tracks had before the prediction (the last observed boxes); the predicted box
  is not in it.
\<close>

theorem predict_only_changes_velocity:
  assumes "list_all (\<lambda>r. r < length store) refs"
  shows "fst (predict t) =
           t\<lparr>velocity :=
               (if 2 \<le> length (history t)
                then (0.7 * fst (velocity t)
                        + 0.3 * ((b0 (last (history t)) + b2 (last (history t))) / 2
                                 - (b0 (history t ! (length (history t) - 2))
                                    + b2 (history t ! (length (history t) - 2))) / 2),
                      0.7 * snd (velocity t)
                        + 0.3 * ((b1 (last (history t)) + b3 (last (history t))) / 2
                                 - (b1 (history t ! (length (history t) - 2))
                                    + b3 (history t ! (length (history t) - 2))) / 2))
                else velocity t)\<rparr>
         \<and> cost_matrix (predict_all store) ds refs =
             map (\<lambda>r. map (\<lambda>d. 1 - iou (bbox (store ! r)) (dbbox d)) ds) refs"
  by (rule conjI [OF predict_frame cost_matrix_predict [OF assms]])

lemma moving_track_eval:
  "moving_track =
     \<lparr> bbox = (10, 0, 20, 10), confidence = 0.9, class_id = 0, class_name = ''person'',
       track_id = 1, hits = 2, age = 1, time_since_update = 0, state = Tentative,
       history = [(0, 0, 10, 10), (10, 0, 20, 10)], confidence_history = [0.9, 0.9],
       velocity = (0, 0), acceleration = (0, 0),
       stability_score = 1, consistency_score = 1, quality_score = (0.9 + 1 + 1) / 3 \<rparr>"
  by (simp add: moving_track_def fresh_track_def person_box_def Track_init_def
      Track_update_steps)

lemma predict_moving_track:
  "predict moving_track = (moving_track\<lparr>velocity := (3, 0)\<rparr>, (13, 0, 23, 10))"
  unfolding moving_track_eval by (simp add: predict_def Let_def)

text \<open>
  A track that moved 10 pixels to the right: the prediction sets the velocity to
  \<open>(3, 0)\<close> and returns the box \<open>(13, 0, 23, 10)\<close>, and the cost against a detection at
  the observed box \<open>(10, 0, 20, 10)\<close> is 0, the cost of the observed box.
\<close>

theorem predict_only_changes_velocity_witness:
  "list_all (\<lambda>r. r < length [moving_track]) [0]
   \<and> (fst (predict moving_track) =
        moving_track\<lparr>velocity :=
          (if 2 \<le> length (history moving_track)
           then (0.7 * fst (velocity moving_track)
                   + 0.3 * ((b0 (last (history moving_track))
                             + b2 (last (history moving_track))) / 2
                            - (b0 (history moving_track ! (length (history moving_track) - 2))
                               + b2 (history moving_track
                                       ! (length (history moving_track) - 2))) / 2),
                 0.7 * snd (velocity moving_track)
                   + 0.3 * ((b1 (last (history moving_track))
                             + b3 (last (history moving_track))) / 2
                            - (b1 (history moving_track ! (length (history moving_track) - 2))
                               + b3 (history moving_track
                                       ! (length (history moving_track) - 2))) / 2))
           else velocity moving_track)\<rparr>
      \<and> cost_matrix (predict_all [moving_track])
          [(0, person_detection\<lparr>det_bbox := (10, 0, 20, 10)\<rparr>)] [0] =
        map (\<lambda>r. map (\<lambda>d. 1 - iou (bbox ([moving_track] ! r)) (dbbox d))
                   [(0, person_detection\<lparr>det_bbox := (10, 0, 20, 10)\<rparr>)]) [0])
   \<and> predict moving_track = (moving_track\<lparr>velocity := (3, 0)\<rparr>, (13, 0, 23, 10))
   \<and> bbox moving_track = (10, 0, 20, 10)
   \<and> cost_matrix (predict_all [moving_track])
       [(0, person_detection\<lparr>det_bbox := (10, 0, 20, 10)\<rparr>)] [0] = [[0]]"
proof -
  have h: "list_all (\<lambda>r. r < length [moving_track]) [0]"
    by simp
  have b: "bbox moving_track = (10, 0, 20, 10)"
    by (simp add: moving_track_eval)
  have c: "cost_matrix (predict_all [moving_track])
             [(0, person_detection\<lparr>det_bbox := (10, 0, 20, 10)\<rparr>)] [0] = [[0]]"
    by (simp add: cost_matrix_def predict_all_def predict_bbox b dbbox_def iou_def Let_def)
  show ?thesis
    by (rule conjI [OF h conjI [OF predict_only_changes_velocity [OF h]
          conjI [OF predict_moving_track conjI [OF b c]]]])
qed

section \<open>Properties of TrackingService\<close>

lemma slice_to_nonneg: "0 \<le> k \<Longrightarrow> slice_to k xs = take (nat k) xs"
  by (simp add: slice_to_def)

lemma emit_tracks_cap_then_filter:
  assumes "0 \<le> max_tracks_per_frame self"
  shows "emit_tracks self xs =
           map format_track (filter (\<lambda>t. hits t \<ge> min_track_duration self)
             (take (nat (max_tracks_per_frame self)) xs))"
  using assms by (auto simp: emit_tracks_def slice_to_nonneg Let_def)

lemma hits_low_hits_track: "hits low_hits_track = 1"
  by (simp add: low_hits_track_def fresh_track_def mark_missed_fields Track_init_fields)

lemma hits_stable_track: "hits stable_track = 3"
  by (simp add: stable_track_def Track_update_fields Track_init_fields)

subsection \<open>The per-frame result\<close>

text \<open>
  C1, as the claim has it (\<open>emit_tracks_as_claimed\<close>): the per-frame result would be
  the tracks with enough hits, cut to the first \<^verbatim>\<open>max_tracks_per_frame\<close> of them. With one emitted track allowed and
  the tracker returning a track with 1 hit followed by a track with 3 hits, that reading
  emits the second track; the code emits nothing, because it cuts the tracker's list to
  its first entry before it looks at the hits.
\<close>

theorem filter_then_cap_counterexample:
  "emit_tracks one_object_service [low_hits_track, stable_track] = []
   \<and> emit_tracks_as_claimed one_object_service [low_hits_track, stable_track]
       = [format_track stable_track]"
  by (simp add: emit_tracks_def emit_tracks_as_claimed_def one_object_service_def
      TrackingService_init_def slice_to_def hits_low_hits_track hits_stable_track)

text \<open>
  C1, amended. For a frame that is processed, with a cap that is not negative: the
  tracker is advanced by \<^verbatim>\<open>update\<close> on the filtered detections and keeps every track
  that call returned; the frame's tracks are the first \<^verbatim>\<open>max_tracks_per_frame\<close> tracks
  of the returned list, in its order, and of those the ones with
  \<^verbatim>\<open>hits >= min_track_duration\<close>; so at most \<^verbatim>\<open>max_tracks_per_frame\<close> are emitted.
\<close>

theorem per_frame_cap_then_filter:
  assumes "0 \<le> max_tracks_per_frame self"
    and "process_frame lsa self i ds = Some (self', fr)"
  shows "update lsa (service_tracker self) (filter_detections self ds)
           = Some (service_tracker self')
         \<and> fr_tracks fr =
             map format_track (filter (\<lambda>t. hits t \<ge> min_track_duration self)
               (take (nat (max_tracks_per_frame self)) (tracks (service_tracker self'))))
         \<and> int (length (fr_tracks fr)) \<le> max_tracks_per_frame self"
proof -
  from assms(2) obtain trk where
    u: "update lsa (service_tracker self) (filter_detections self ds) = Some trk"
    and s: "self' = self\<lparr>service_tracker := trk\<rparr>"
    and f: "fr_tracks fr = emit_tracks self (tracks trk)"
    by (auto simp: process_frame_def split: option.splits)
  have e: "fr_tracks fr =
             map format_track (filter (\<lambda>t. hits t \<ge> min_track_duration self)
               (take (nat (max_tracks_per_frame self)) (tracks trk)))"
    using f emit_tracks_cap_then_filter [OF assms(1)] by simp
  have "length (fr_tracks fr) \<le> length (take (nat (max_tracks_per_frame self)) (tracks trk))"
    unfolding e length_map by (rule length_filter_le)
  then have "length (fr_tracks fr) \<le> nat (max_tracks_per_frame self)" by simp
  then have "int (length (fr_tracks fr)) \<le> max_tracks_per_frame self"
    using assms(1) by linarith
  with u s e show ?thesis by simp
qed

subsection \<open>The statistics\<close>

text \<open>
  C3. A video of five frames in which track 1 never reaches three hits and track 2 is
  emitted in the last processed frame: \<^verbatim>\<open>tracking_stats['total_tracks']\<close> is 2, the
  largest emitted track id, while the result's own \<^verbatim>\<open>'total_tracks'\<close>, the number of
  distinct emitted ids, is 1. The other statistics are 1 emitted detection, the duration
  1 for track 2, and the average duration 1.
\<close>

theorem stats_total_tracks_is_max_id:
  "st_total_tracks (tracking_stats (aggregate_results 5 only_track_2_emitted)) = 2
   \<and> total_tracks (aggregate_results 5 only_track_2_emitted) = 1
   \<and> st_total_detections (tracking_stats (aggregate_results 5 only_track_2_emitted)) = 1
   \<and> st_track_durations (tracking_stats (aggregate_results 5 only_track_2_emitted)) = [(2, 1)]
   \<and> st_avg_track_duration (tracking_stats (aggregate_results 5 only_track_2_emitted)) = 1"
proof -
  have i: "td_track_id emitted_2 = 2"
    by (simp add: emitted_2_def format_track_def stable_track_def Track_update_fields
        Track_init_fields)
  show ?thesis
    by (simp add: aggregate_results_def calculate_tracking_stats_def count_frame_def
        count_track_def dict_set_def dict_get_def only_track_2_emitted_def Let_def i)
qed

section \<open>Properties of the associator\<close>

subsection \<open>The greedy fallback\<close>

lemma best_track_fold:
  "fst (fold (best_track_step thr store d) uts acc) = Some t \<Longrightarrow>
   fst acc = Some t \<or> (t \<in> set uts \<and> iou (bbox (store ! t)) (dbbox d) > thr)"
proof (induction uts arbitrary: acc)
  case Nil
  then show ?case by simp
next
  case (Cons u uts)
  from Cons.prems have
    "fst (fold (best_track_step thr store d) uts (best_track_step thr store d u acc)) = Some t"
    by simp
  from Cons.IH [OF this] show ?case
    by (auto simp: best_track_step_def split: if_splits)
qed

lemma find_best_track_Some:
  assumes "find_best_track thr store d uts = Some t"
  shows "t \<in> set uts \<and> iou (bbox (store ! t)) (dbbox d) > thr"
  using best_track_fold [of thr store d uts "(None, 0)" t] assms
  by (simp add: find_best_track_def)

lemma find_best_track_None:
  assumes "\<forall>t \<in> set uts. \<not> iou (bbox (store ! t)) (dbbox d) > thr"
  shows "find_best_track thr store d uts = None"
proof (cases "find_best_track thr store d uts")
  case None
  then show ?thesis .
next
  case (Some t)
  from find_best_track_Some [OF Some] assms show ?thesis by blast
qed

lemma greedy_loop_matched:
  assumes "greedy_loop thr store i m ud ut = Some r"
  shows "list_all (over_threshold thr store) m \<longrightarrow> list_all (over_threshold thr store) (fst r)"
proof (rule greedy_loop.raw_induct
    [where P = "\<lambda>thr store i m ud ut r.
       list_all (over_threshold thr store) m \<longrightarrow> list_all (over_threshold thr store) (fst r)",
     OF _ assms])
  fix f :: "real \<Rightarrow> track list \<Rightarrow> nat \<Rightarrow> (track_ref \<times> det_obj) list \<Rightarrow> det_obj list
              \<Rightarrow> track_ref list
              \<Rightarrow> ((track_ref \<times> det_obj) list \<times> det_obj list \<times> track_ref list) option"
    and thr store i m ud ut r
  assume IH: "\<And>thr store i m ud ut r. f thr store i m ud ut = Some r \<Longrightarrow>
      list_all (over_threshold thr store) m \<longrightarrow> list_all (over_threshold thr store) (fst r)"
  assume step: "(if i < length ud
      then case find_best_track thr store (ud ! i) ut of
           None \<Rightarrow> f thr store (i + 1) m (ud @ [ud ! i]) ut
           | Some best_track \<Rightarrow>
               f thr store (i + 1) (m @ [(best_track, ud ! i)]) ud (remove1 best_track ut)
      else Some (m, ud, ut)) = Some r"
  show "list_all (over_threshold thr store) m \<longrightarrow> list_all (over_threshold thr store) (fst r)"
  proof (cases "i < length ud")
    case False
    with step show ?thesis by auto
  next
    case True
    show ?thesis
    proof (cases "find_best_track thr store (ud ! i) ut")
      case None
      with True step have "f thr store (i + 1) m (ud @ [ud ! i]) ut = Some r" by simp
      from IH [OF this] show ?thesis .
    next
      case (Some bt)
      with True step have
        "f thr store (i + 1) (m @ [(bt, ud ! i)]) ud (remove1 bt ut) = Some r" by simp
      from IH [OF this] find_best_track_Some [OF Some] show ?thesis
        by (simp add: over_threshold_def)
    qed
  qed
qed

subsection \<open>When the greedy loop does not end\<close>

lemma stuck_step_None:
  assumes "stuck thr store i ud ut"
  shows "stuck thr store (i + 1) (ud @ [ud ! i]) ut"
proof -
  from assms obtain k where k: "i \<le> k" "k < length ud"
    "\<forall>t \<in> set ut. \<not> iou (bbox (store ! t)) (dbbox (ud ! k)) > thr"
    by (auto simp: stuck_def)
  show ?thesis
  proof (cases "k = i")
    case True
    with k have "i + 1 \<le> length ud \<and> length ud < length (ud @ [ud ! i])
      \<and> (\<forall>t \<in> set ut. \<not> iou (bbox (store ! t)) (dbbox ((ud @ [ud ! i]) ! length ud)) > thr)"
      by simp
    then show ?thesis unfolding stuck_def by blast
  next
    case False
    with k have "i + 1 \<le> k \<and> k < length (ud @ [ud ! i])
      \<and> (\<forall>t \<in> set ut. \<not> iou (bbox (store ! t)) (dbbox ((ud @ [ud ! i]) ! k)) > thr)"
      by (simp add: nth_append)
    then show ?thesis unfolding stuck_def by blast
  qed
qed

lemma stuck_step_Some:
  assumes "stuck thr store i ud ut" and "find_best_track thr store (ud ! i) ut = Some bt"
  shows "stuck thr store (i + 1) ud (remove1 bt ut)"
proof -
  from assms(1) obtain k where k: "i \<le> k" "k < length ud"
    "\<forall>t \<in> set ut. \<not> iou (bbox (store ! t)) (dbbox (ud ! k)) > thr"
    by (auto simp: stuck_def)
  from find_best_track_Some [OF assms(2)] k(3) have "k \<noteq> i" by auto
  with k have "i + 1 \<le> k \<and> k < length ud
      \<and> (\<forall>t \<in> set (remove1 bt ut). \<not> iou (bbox (store ! t)) (dbbox (ud ! k)) > thr)"
    by (auto dest: notin_set_remove1)
  then show ?thesis unfolding stuck_def by blast
qed

lemma greedy_loop_stuck:
  assumes "greedy_loop thr store i m ud ut = Some r"
  shows "\<not> stuck thr store i ud ut"
proof (rule greedy_loop.raw_induct
    [where P = "\<lambda>thr store i m ud ut r. \<not> stuck thr store i ud ut", OF _ assms])
  fix f :: "real \<Rightarrow> track list \<Rightarrow> nat \<Rightarrow> (track_ref \<times> det_obj) list \<Rightarrow> det_obj list
              \<Rightarrow> track_ref list
              \<Rightarrow> ((track_ref \<times> det_obj) list \<times> det_obj list \<times> track_ref list) option"
    and thr store i m ud ut r
  assume IH: "\<And>thr store i m ud ut r. f thr store i m ud ut = Some r \<Longrightarrow>
      \<not> stuck thr store i ud ut"
  assume step: "(if i < length ud
      then case find_best_track thr store (ud ! i) ut of
           None \<Rightarrow> f thr store (i + 1) m (ud @ [ud ! i]) ut
           | Some best_track \<Rightarrow>
               f thr store (i + 1) (m @ [(best_track, ud ! i)]) ud (remove1 best_track ut)
      else Some (m, ud, ut)) = Some r"
  show "\<not> stuck thr store i ud ut"
  proof
    assume s: "stuck thr store i ud ut"
    then have True: "i < length ud" by (auto simp: stuck_def)
    show False
    proof (cases "find_best_track thr store (ud ! i) ut")
      case None
      with True step have "f thr store (i + 1) m (ud @ [ud ! i]) ut = Some r" by simp
      from IH [OF this] stuck_step_None [OF s] show False by simp
    next
      case (Some bt)
      with True step have
        "f thr store (i + 1) (m @ [(bt, ud ! i)]) ud (remove1 bt ut) = Some r" by simp
      from IH [OF this] stuck_step_Some [OF s Some] show False by simp
    qed
  qed
qed

lemma greedy_assignment_diverges:
  assumes "d \<in> set ds"
    and "\<forall>t \<in> set trks. \<not> iou (bbox (store ! t)) (dbbox d) > thr"
  shows "greedy_assignment thr store ds trks = None"
proof (cases "greedy_assignment thr store ds trks")
  case None
  then show ?thesis .
next
  case (Some r)
  from assms(1) have "d \<in> set (sort_by_confidence_desc ds)"
    by (simp add: sort_by_confidence_desc_def)
  then obtain k where "k < length (sort_by_confidence_desc ds)"
    "sort_by_confidence_desc ds ! k = d"
    by (auto simp: in_set_conv_nth)
  with assms(2) have "stuck thr store 0 (sort_by_confidence_desc ds) trks"
    unfolding stuck_def by auto
  with greedy_loop_stuck [of thr store 0 "[]" "sort_by_confidence_desc ds" trks r] Some
  show ?thesis by (simp add: greedy_assignment_def)
qed

subsection \<open>The optimal-assignment path\<close>

lemma cost_matrix_nth:
  "i < length trks \<Longrightarrow> j < length ds \<Longrightarrow>
   cost_matrix store ds trks ! i ! j = 1 - iou (bbox (store ! (trks ! i))) (dbbox (ds ! j))"
  by (simp add: cost_matrix_def)

lemma lsa_pairs_in_range:
  assumes "lsa_result_ok n m r" and "(i, j) \<in> set (zip (fst r) (snd r))"
  shows "i < n \<and> j < m"
  using assms by (auto simp: lsa_result_ok_def list_all_iff dest: set_zip_leftD set_zip_rightD)

lemma associate_solver_eq:
  assumes "trks \<noteq> []" and "ds \<noteq> []"
  shows "associate_detections_to_tracks (Some solve) thr store ds trks =
     Some (map (\<lambda>(i, j). (trks ! i, ds ! j))
             (filter (\<lambda>(i, j). cost_matrix store ds trks ! i ! j < 1 - thr)
                (zip (fst (solve (cost_matrix store ds trks)))
                     (snd (solve (cost_matrix store ds trks))))),
           map (\<lambda>(i, j). ds ! j)
             (filter (\<lambda>(i, j). \<not> cost_matrix store ds trks ! i ! j < 1 - thr)
                (zip (fst (solve (cost_matrix store ds trks)))
                     (snd (solve (cost_matrix store ds trks)))))
           @ map (\<lambda>j. ds ! j)
               (filter (\<lambda>j. j \<notin> set (snd (solve (cost_matrix store ds trks))))
                  [0..<length ds]),
           map (\<lambda>(i, j). trks ! i)
             (filter (\<lambda>(i, j). \<not> cost_matrix store ds trks ! i ! j < 1 - thr)
                (zip (fst (solve (cost_matrix store ds trks)))
                     (snd (solve (cost_matrix store ds trks)))))
           @ map (\<lambda>i. trks ! i)
               (filter (\<lambda>i. i \<notin> set (fst (solve (cost_matrix store ds trks))))
                  [0..<length trks]))"
  using assms by (simp add: associate_detections_to_tracks_def Let_def)

lemma associate_matched_over_threshold:
  assumes a: "associate_detections_to_tracks lsa thr store ds trks = Some (matched, ud, ut)"
    and ok: "solver_ok lsa store ds trks"
  shows "list_all (over_threshold thr store) matched"
proof (cases "trks = [] \<or> ds = []")
  case True
  with a show ?thesis by (auto simp: associate_detections_to_tracks_def split: if_splits)
next
  case False
  then have ne: "trks \<noteq> []" "ds \<noteq> []" by simp_all
  show ?thesis
  proof (cases lsa)
    case None
    with a ne have "greedy_loop thr store 0 [] (sort_by_confidence_desc ds) trks
                      = Some (matched, ud, ut)"
      by (simp add: associate_detections_to_tracks_def greedy_assignment_def)
    from greedy_loop_matched [OF this] show ?thesis by simp
  next
    case (Some solve)
    let ?cm = "cost_matrix store ds trks"
    from ok Some have r: "lsa_result_ok (length trks) (length ds) (solve ?cm)"
      by (simp add: solver_ok_def)
    from a [unfolded Some associate_solver_eq [OF ne]] have m: "matched = map (\<lambda>(i, j). (trks ! i, ds ! j))
             (filter (\<lambda>(i, j). ?cm ! i ! j < 1 - thr)
                (zip (fst (solve ?cm)) (snd (solve ?cm))))"
      by simp
    show ?thesis
      unfolding m list_all_iff
    proof
      fix p
      assume "p \<in> set (map (\<lambda>(i, j). (trks ! i, ds ! j))
             (filter (\<lambda>(i, j). ?cm ! i ! j < 1 - thr)
                (zip (fst (solve ?cm)) (snd (solve ?cm)))))"
      then obtain i j where p: "p = (trks ! i, ds ! j)"
        and ij: "(i, j) \<in> set (zip (fst (solve ?cm)) (snd (solve ?cm)))"
        and c: "?cm ! i ! j < 1 - thr"
        by auto
      from lsa_pairs_in_range [OF r ij] have "i < length trks" "j < length ds" by simp_all
      from cost_matrix_nth [OF this] c p show "over_threshold thr store p"
        by (simp add: over_threshold_def)
    qed
  qed
qed

lemma associate_rejected_pushed_back:
  assumes a: "associate_detections_to_tracks (Some solve) thr store ds trks
                = Some (matched, ud, ut)"
    and ne: "trks \<noteq> []" "ds \<noteq> []"
    and ij: "(i, j) \<in> set (zip (fst (solve (cost_matrix store ds trks)))
                              (snd (solve (cost_matrix store ds trks))))"
    and c: "\<not> cost_matrix store ds trks ! i ! j < 1 - thr"
  shows "trks ! i \<in> set ut \<and> ds ! j \<in> set ud"
proof -
  let ?cm = "cost_matrix store ds trks"
  let ?rej = "filter (\<lambda>(i, j). \<not> ?cm ! i ! j < 1 - thr) (zip (fst (solve ?cm)) (snd (solve ?cm)))"
  from ij c have r: "(i, j) \<in> set ?rej" by simp
  from a [unfolded associate_solver_eq [OF ne]] have ud: "ud = map (\<lambda>(i, j). ds ! j) ?rej
           @ map (\<lambda>j. ds ! j) (filter (\<lambda>j. j \<notin> set (snd (solve ?cm))) [0..<length ds])"
    and ut: "ut = map (\<lambda>(i, j). trks ! i) ?rej
           @ map (\<lambda>i. trks ! i) (filter (\<lambda>i. i \<notin> set (fst (solve ?cm))) [0..<length trks])"
    by simp_all
  have "trks ! i \<in> (\<lambda>(i, j). trks ! i) ` set ?rej" using r by force
  moreover have "ds ! j \<in> (\<lambda>(i, j). ds ! j) ` set ?rej" using r by force
  ultimately show ?thesis unfolding ud ut by simp
qed

text \<open>
  C8. In every call of the associator that returns, on the optimal-assignment path (with a
  solver that answers as the library documents) and on the greedy fallback alike, every
  accepted pair has \<open>IoU(track.bbox, detection.bbox) > iou_threshold\<close>; and a pair the
  solver proposed whose cost is not below \<open>1 - iou_threshold\<close> is not accepted: its
  track is in \<^verbatim>\<open>unmatched_tracks\<close> and its detection in \<^verbatim>\<open>unmatched_detections\<close>.
\<close>

theorem accepted_matches_exceed_threshold:
  assumes "associate_detections_to_tracks lsa thr store ds trks = Some (matched, ud, ut)"
    and "solver_ok lsa store ds trks"
  shows "(\<forall>(t, d) \<in> set matched. iou (bbox (store ! t)) (dbbox d) > thr)
     \<and> (\<forall>solve i j. lsa = Some solve \<and> trks \<noteq> [] \<and> ds \<noteq> []
          \<and> (i, j) \<in> set (zip (fst (solve (cost_matrix store ds trks)))
                              (snd (solve (cost_matrix store ds trks))))
          \<and> \<not> cost_matrix store ds trks ! i ! j < 1 - thr
        \<longrightarrow> trks ! i \<in> set ut \<and> ds ! j \<in> set ud \<and> (trks ! i, ds ! j) \<notin> set matched)"
proof (intro conjI allI impI)
  from associate_matched_over_threshold [OF assms]
  show m: "\<forall>(t, d) \<in> set matched. iou (bbox (store ! t)) (dbbox d) > thr"
    by (auto simp: list_all_iff over_threshold_def)
  fix solve i j
  assume h: "lsa = Some solve \<and> trks \<noteq> [] \<and> ds \<noteq> []
          \<and> (i, j) \<in> set (zip (fst (solve (cost_matrix store ds trks)))
                              (snd (solve (cost_matrix store ds trks))))
          \<and> \<not> cost_matrix store ds trks ! i ! j < 1 - thr"
  from h assms(1) have a: "associate_detections_to_tracks (Some solve) thr store ds trks
                = Some (matched, ud, ut)" by simp
  from h have ne: "trks \<noteq> []" "ds \<noteq> []"
    and ij: "(i, j) \<in> set (zip (fst (solve (cost_matrix store ds trks)))
                              (snd (solve (cost_matrix store ds trks))))"
    and c: "\<not> cost_matrix store ds trks ! i ! j < 1 - thr"
    by simp_all
  from associate_rejected_pushed_back [OF a ne ij c]
  show "trks ! i \<in> set ut" and "ds ! j \<in> set ud" by simp_all
  from assms(2) h have "lsa_result_ok (length trks) (length ds) (solve (cost_matrix store ds trks))"
    by (simp add: solver_ok_def)
  from lsa_pairs_in_range [OF this ij] have "i < length trks" "j < length ds" by simp_all
  from cost_matrix_nth [OF this] c
  have "\<not> iou (bbox (store ! (trks ! i))) (dbbox (ds ! j)) > thr" by simp
  with m show "(trks ! i, ds ! j) \<notin> set matched" by auto
qed

subsection \<open>Evaluating the example inputs\<close>

lemma iou_person_person: "iou person_box person_box = 1"
  by (simp add: iou_def person_box_def)

lemma iou_person_far: "iou person_box far_box = 0"
  by (simp add: iou_def person_box_def far_box_def)

lemma iou_person_lost: "iou person_box lost_box = 0"
  by (simp add: iou_def person_box_def lost_box_def)

lemma iou_far_person: "iou far_box person_box = 0"
  by (simp add: iou_def person_box_def far_box_def)

lemma iou_far_lost: "iou far_box lost_box = 0"
  by (simp add: iou_def lost_box_def far_box_def)

lemma bbox_fresh_track: "bbox fresh_track = person_box"
  by (simp add: fresh_track_def Track_init_fields)

lemma bbox_stable_track: "bbox stable_track = far_box"
  by (simp add: stable_track_def Track_update_fields)

lemma dbbox_simps:
  "dbbox (k, person_detection) = person_box"
  "dbbox (k, far_detection) = far_box"
  "dbbox (k, lost_detection) = lost_box"
  by (simp_all add: dbbox_def person_detection_def far_detection_def lost_detection_def)

lemma diagonal_2x2: "diagonal [[a, b], [c, d]] = ([0, 1], [0, 1])"
proof -
  have "[0..<2] = [0, Suc 0]" by (simp add: upt_rec)
  then show ?thesis by (simp add: diagonal_def)
qed

lemma cost_matrix_example:
  "cost_matrix two_tracks two_detections two_refs = [[0, 1], [1, 1]]"
  by (simp add: cost_matrix_def two_tracks_def two_detections_def two_refs_def
      bbox_fresh_track bbox_stable_track dbbox_simps
      iou_person_person iou_person_lost iou_far_person iou_far_lost)

lemma associate_example:
  "associate_detections_to_tracks (Some diagonal) 0.3 two_tracks two_detections two_refs
   = Some ([(0, (0, person_detection))], [(1, lost_detection)], [1])"
proof -
  have u: "[0..<2] = [0, Suc 0]" by (simp add: upt_rec)
  have ne: "two_refs \<noteq> []" "two_detections \<noteq> []"
    by (simp_all add: two_refs_def two_detections_def)
  show ?thesis
    unfolding associate_solver_eq [OF ne] cost_matrix_example diagonal_2x2
    by (simp add: two_detections_def two_refs_def u)
qed

lemma solver_ok_example:
  "solver_ok (Some diagonal) two_tracks two_detections two_refs"
  unfolding solver_ok_def option.case cost_matrix_example diagonal_2x2
  by (simp add: lsa_result_ok_def two_detections_def two_refs_def)

text \<open>
  Two tracks and two detections under the diagonal assignment: the pair of the track and
  the detection at \<open>person_box\<close> (IoU 1) is accepted, the pair of the track at \<open>far_box\<close>
  and the detection at \<open>lost_box\<close> (IoU 0, cost 1) is handed back as unmatched.
\<close>

theorem accepted_matches_exceed_threshold_witness:
  "associate_detections_to_tracks (Some diagonal) 0.3 two_tracks two_detections two_refs
   = Some ([(0, (0, person_detection))], [(1, lost_detection)], [1])
   \<and> solver_ok (Some diagonal) two_tracks two_detections two_refs
   \<and> iou (bbox (two_tracks ! 0)) (dbbox (0, person_detection)) > 0.3
   \<and> two_refs ! 1 \<in> set [1::nat]
   \<and> two_detections ! 1 \<in> set [(1, lost_detection)]"
proof -
  note t = accepted_matches_exceed_threshold [OF associate_example solver_ok_example]
  from t have m: "iou (bbox (two_tracks ! 0)) (dbbox (0, person_detection)) > 0.3"
    by simp
  have ne: "two_refs \<noteq> []" "two_detections \<noteq> []"
    by (simp_all add: two_refs_def two_detections_def)
  have ij: "(1, 1) \<in> set (zip (fst (diagonal (cost_matrix two_tracks two_detections two_refs)))
            (snd (diagonal (cost_matrix two_tracks two_detections two_refs))))"
    unfolding cost_matrix_example diagonal_2x2 by simp
  have c: "\<not> cost_matrix two_tracks two_detections two_refs ! 1 ! 1 < 1 - 0.3"
    unfolding cost_matrix_example by simp
  from t ne ij c have "two_refs ! 1 \<in> set [1::nat]
      \<and> two_detections ! 1 \<in> set [(1, lost_detection)]"
    by blast
  with m associate_example solver_ok_example show ?thesis by blast
qed

lemma greedy_match_example:
  "greedy_assignment 0.3 [fresh_track] [(0, person_detection)] [0]
     = Some ([(0, (0, person_detection))], [(0, person_detection)], [])"
  apply (simp add: greedy_assignment_def sort_by_confidence_desc_def)
  apply (subst greedy_loop.simps)
  apply (simp add: find_best_track_def best_track_step_def bbox_fresh_track dbbox_simps
      iou_person_person)
  apply (subst greedy_loop.simps)
  apply simp
  done

text \<open>
  C2. One track at \<open>person_box\<close>, threshold 0.3. With one detection at \<open>far_box\<close> (IoU 0
  with the track) \<^verbatim>\<open>greedy_assignment\<close> does not return: the unmatched detection is
  appended to the list the loop iterates, is met again, and is appended again. With one
  detection at \<open>person_box\<close> it returns, and the matched detection is still in the
  returned \<^verbatim>\<open>unmatched_detections\<close>.
\<close>

theorem greedy_assignment_does_not_return:
  "greedy_assignment 0.3 [fresh_track] [(0, far_detection)] [0] = None
   \<and> associate_detections_to_tracks None 0.3 [fresh_track] [(0, far_detection)] [0] = None
   \<and> greedy_assignment 0.3 [fresh_track] [(0, person_detection)] [0]
       = Some ([(0, (0, person_detection))], [(0, person_detection)], [])"
proof -
  have "greedy_assignment 0.3 [fresh_track] [(0, far_detection)] [0] = None"
    by (rule greedy_assignment_diverges [of "(0, far_detection)"])
       (simp_all add: bbox_fresh_track dbbox_simps iou_person_far)
  then show ?thesis
    by (simp add: associate_detections_to_tracks_def greedy_match_example)
qed

section \<open>Properties of EnhancedTracker.update\<close>

subsection \<open>The stages of one call\<close>

lemma fold_create_track_snd:
  "snd (fold create_track ds s) = snd s + int (length ds)"
  by (induction ds arbitrary: s) (simp_all add: create_track_def)

lemma fold_create_track_fst:
  "fst (fold create_track ds s) =
     fst s @ map (\<lambda>k. new_track (snd s + int k) (ds ! k)) [0..<length ds]"
proof (induction ds rule: rev_induct)
  case Nil
  then show ?case by simp
next
  case (snoc d ds)
  have a: "map (\<lambda>k. new_track (snd s + int k) ((ds @ [d]) ! k)) [0..<length ds]
        = map (\<lambda>k. new_track (snd s + int k) (ds ! k)) [0..<length ds]"
    by (simp add: nth_append)
  have "fst (fold create_track (ds @ [d]) s)
          = fst (fold create_track ds s) @ [new_track (snd (fold create_track ds s)) d]"
    by (simp add: create_track_def)
  also have "\<dots> = fst s @ map (\<lambda>k. new_track (snd s + int k) (ds ! k)) [0..<length ds]
                 @ [new_track (snd s + int (length ds)) d]"
    by (simp add: snoc.IH fold_create_track_snd)
  finally show ?case using a by simp
qed

lemma associate_no_tracks:
  "associate_detections_to_tracks lsa thr store ds [] = Some ([], ds, [])"
  by (simp add: associate_detections_to_tracks_def)


lemma apply_matches_Nil: "apply_matches [] store = store"
  by (simp add: apply_matches_def)

lemma mark_unmatched_Nil: "mark_unmatched [] xs = map mark_missed xs"
  unfolding mark_unmatched_def by (rule nth_equalityI) simp_all

lemma update_before_eviction_stages:
  assumes "associate_detections_to_tracks lsa (iou_threshold self) (predict_all (tracks self))
             (high_confidence (enumerate_detections ds))
             (tracks_in_state Confirmed (predict_all (tracks self))) = Some (m1, u1, c1)"
    and "associate_detections_to_tracks lsa (iou_threshold self)
             (apply_matches m1 (predict_all (tracks self))) u1
             (tracks_in_state Tentative (predict_all (tracks self))) = Some (m2, u2, t2)"
    and "associate_detections_to_tracks lsa (iou_threshold self)
             (apply_matches m2 (apply_matches m1 (predict_all (tracks self))))
             (low_confidence (enumerate_detections ds))
             (filter (\<lambda>t. t \<notin> set (map fst m2)) c1) = Some (m3, u3, x3)"
  shows "update_before_eviction lsa self ds =
     Some (self\<lparr>frame_count := frame_count self + 1,
                tracks := mark_unmatched (map fst (m1 @ m2 @ m3))
                  (fst (fold create_track (filter (\<lambda>d. d \<notin> set (map snd m2)) u1)
                     (apply_matches m3 (apply_matches m2 (apply_matches m1
                        (predict_all (tracks self)))), next_id self))),
                next_id := snd (fold create_track (filter (\<lambda>d. d \<notin> set (map snd m2)) u1)
                     (apply_matches m3 (apply_matches m2 (apply_matches m1
                        (predict_all (tracks self)))), next_id self))\<rparr>)"
  unfolding update_before_eviction_def Let_def
  by (simp only: assms bind.simps prod.case)

lemma update_before_eviction_elim:
  assumes "update_before_eviction lsa self ds = Some mid"
  obtains m1 u1 c1 m2 u2 t2 m3 u3 x3 where
    "associate_detections_to_tracks lsa (iou_threshold self) (predict_all (tracks self))
             (high_confidence (enumerate_detections ds))
             (tracks_in_state Confirmed (predict_all (tracks self))) = Some (m1, u1, c1)"
    "associate_detections_to_tracks lsa (iou_threshold self)
             (apply_matches m1 (predict_all (tracks self))) u1
             (tracks_in_state Tentative (predict_all (tracks self))) = Some (m2, u2, t2)"
    "associate_detections_to_tracks lsa (iou_threshold self)
             (apply_matches m2 (apply_matches m1 (predict_all (tracks self))))
             (low_confidence (enumerate_detections ds))
             (filter (\<lambda>t. t \<notin> set (map fst m2)) c1) = Some (m3, u3, x3)"
    "mid = self\<lparr>frame_count := frame_count self + 1,
                tracks := mark_unmatched (map fst (m1 @ m2 @ m3))
                  (fst (fold create_track (filter (\<lambda>d. d \<notin> set (map snd m2)) u1)
                     (apply_matches m3 (apply_matches m2 (apply_matches m1
                        (predict_all (tracks self)))), next_id self))),
                next_id := snd (fold create_track (filter (\<lambda>d. d \<notin> set (map snd m2)) u1)
                     (apply_matches m3 (apply_matches m2 (apply_matches m1
                        (predict_all (tracks self)))), next_id self))\<rparr>"
proof -
  let ?s1 = "predict_all (tracks self)"
  obtain r1 where r1: "associate_detections_to_tracks lsa (iou_threshold self) ?s1
             (high_confidence (enumerate_detections ds))
             (tracks_in_state Confirmed ?s1) = Some r1"
    using assms unfolding update_before_eviction_def Let_def
    by (cases "associate_detections_to_tracks lsa (iou_threshold self) ?s1
             (high_confidence (enumerate_detections ds))
             (tracks_in_state Confirmed ?s1)") simp_all
  obtain m1 u1 c1 where p1: "r1 = (m1, u1, c1)" by (cases r1) auto
  obtain r2 where r2: "associate_detections_to_tracks lsa (iou_threshold self)
             (apply_matches m1 ?s1) u1 (tracks_in_state Tentative ?s1) = Some r2"
    using assms unfolding update_before_eviction_def Let_def r1 p1 bind.simps prod.case
    by (cases "associate_detections_to_tracks lsa (iou_threshold self)
             (apply_matches m1 ?s1) u1 (tracks_in_state Tentative ?s1)") simp_all
  obtain m2 u2 t2 where p2: "r2 = (m2, u2, t2)" by (cases r2) auto
  obtain r3 where r3: "associate_detections_to_tracks lsa (iou_threshold self)
             (apply_matches m2 (apply_matches m1 ?s1))
             (low_confidence (enumerate_detections ds))
             (filter (\<lambda>t. t \<notin> set (map fst m2)) c1) = Some r3"
    using assms unfolding update_before_eviction_def Let_def r1 p1 r2 p2 bind.simps prod.case
    by (cases "associate_detections_to_tracks lsa (iou_threshold self)
             (apply_matches m2 (apply_matches m1 ?s1))
             (low_confidence (enumerate_detections ds))
             (filter (\<lambda>t. t \<notin> set (map fst m2)) c1)") simp_all
  obtain m3 u3 x3 where p3: "r3 = (m3, u3, x3)" by (cases r3) auto
  note e = update_before_eviction_stages [OF r1 [unfolded p1] r2 [unfolded p2] r3 [unfolded p3]]
  from assms [unfolded e] have "mid = self\<lparr>frame_count := frame_count self + 1,
                tracks := mark_unmatched (map fst (m1 @ m2 @ m3))
                  (fst (fold create_track (filter (\<lambda>d. d \<notin> set (map snd m2)) u1)
                     (apply_matches m3 (apply_matches m2 (apply_matches m1
                        (predict_all (tracks self)))), next_id self))),
                next_id := snd (fold create_track (filter (\<lambda>d. d \<notin> set (map snd m2)) u1)
                     (apply_matches m3 (apply_matches m2 (apply_matches m1
                        (predict_all (tracks self)))), next_id self))\<rparr>"
    by simp
  with r1 [unfolded p1] r2 [unfolded p2] r3 [unfolded p3] that show thesis by blast
qed

subsection \<open>Track ids\<close>


lemma length_predict_all: "length (predict_all s) = length s"
  by (simp add: predict_all_def)




lemma track_id_new_track: "track_id (new_track n d) = n"
  by (simp add: new_track_def Track_init_fields)





lemma update_Some:
  "update lsa self ds = Some s' \<longleftrightarrow>
     (\<exists>mid. update_before_eviction lsa self ds = Some mid \<and> s' = remove_old_tracks mid)"
  by (auto simp: update_def)



lemma update_returns_young_tracks:
  assumes "update lsa self ds = Some s'"
  shows "list_all (\<lambda>u. time_since_update u < max_age s') (tracks s')"
  using assms by (auto simp: update_Some remove_old_tracks_def list_all_iff)


subsection \<open>Calls on a tracker without tracks, and calls without detections\<close>

lemma tracks_in_state_Nil: "tracks_in_state s [] = []"
  by (simp add: tracks_in_state_def)

lemma predict_all_Nil: "predict_all [] = []"
  by (simp add: predict_all_def)

lemma update_before_eviction_no_tracks:
  assumes "tracks self = []"
  shows "update_before_eviction lsa self ds =
     Some (self\<lparr>frame_count := frame_count self + 1,
                tracks := map mark_missed
                  (map (\<lambda>k. new_track (next_id self + int k)
                           (high_confidence (enumerate_detections ds) ! k))
                     [0..<length (high_confidence (enumerate_detections ds))]),
                next_id := next_id self
                  + int (length (high_confidence (enumerate_detections ds)))\<rparr>)"
proof -
  let ?high = "high_confidence (enumerate_detections ds)"
  let ?low = "low_confidence (enumerate_detections ds)"
  have a: "associate_detections_to_tracks lsa (iou_threshold self) (predict_all (tracks self))
             ?high (tracks_in_state Confirmed (predict_all (tracks self))) = Some ([], ?high, [])"
    by (simp only: assms predict_all_Nil tracks_in_state_Nil associate_no_tracks)
  have b: "associate_detections_to_tracks lsa (iou_threshold self)
             (apply_matches [] (predict_all (tracks self))) ?high
             (tracks_in_state Tentative (predict_all (tracks self))) = Some ([], ?high, [])"
    by (simp only: assms predict_all_Nil tracks_in_state_Nil associate_no_tracks)
  have c: "associate_detections_to_tracks lsa (iou_threshold self)
             (apply_matches [] (apply_matches [] (predict_all (tracks self)))) ?low
             (filter (\<lambda>t. t \<notin> set (map fst [])) []) = Some ([], ?low, [])"
    by (simp only: filter.simps associate_no_tracks)
  show ?thesis
    unfolding update_before_eviction_stages [OF a b c]
    by (simp add: apply_matches_Nil mark_unmatched_Nil fold_create_track_fst
        fold_create_track_snd assms predict_all_Nil del: upt.simps)
qed


lemma enumerate_single: "enumerate_detections [d] = [(0, d)]"
  by (simp add: enumerate_detections_def)

lemma dconf_person: "dconf (k, person_detection) = 0.9"
  by (simp add: dconf_def person_detection_def)

lemma high_single_person: "high_confidence [(0, person_detection)] = [(0, person_detection)]"
  by (simp add: high_confidence_def dconf_person)

lemma low_single_person: "low_confidence [(0, person_detection)] = []"
  by (simp add: low_confidence_def dconf_person)

lemma first_track_fields:
  "time_since_update first_track = 1" "track_id first_track = 1"
  by (simp_all add: first_track_def mark_missed_fields track_id_new_track new_track_def
      Track_init_fields)

lemma second_track_fields:
  "time_since_update second_track = 1" "track_id second_track = 2"
  by (simp_all add: second_track_def mark_missed_fields track_id_new_track new_track_def
      Track_init_fields)

lemma frame_1:
  "update None short_lived_tracker [person_detection] = Some tracker_after_frame_1"
proof -
  have t: "tracks short_lived_tracker = []"
    by (simp add: short_lived_tracker_def EnhancedTracker_init_def)
  show ?thesis
    unfolding update_def update_before_eviction_no_tracks [OF t] enumerate_single
      high_single_person
    by (simp add: short_lived_tracker_def EnhancedTracker_init_def remove_old_tracks_def
        tracker_after_frame_1_def first_track_def [symmetric] first_track_fields)
qed







subsection \<open>Where new tracks come from\<close>

lemma greedy_loop_unmatched_detections:
  assumes "greedy_loop thr store i m ud ut = Some r"
  shows "set (fst (snd r)) \<subseteq> set ud"
proof (rule greedy_loop.raw_induct
    [where P = "\<lambda>thr store i m ud ut r. set (fst (snd r)) \<subseteq> set ud", OF _ assms])
  fix f :: "real \<Rightarrow> track list \<Rightarrow> nat \<Rightarrow> (track_ref \<times> det_obj) list \<Rightarrow> det_obj list
              \<Rightarrow> track_ref list
              \<Rightarrow> ((track_ref \<times> det_obj) list \<times> det_obj list \<times> track_ref list) option"
    and thr store i m ud ut r
  assume IH: "\<And>thr store i m ud ut r. f thr store i m ud ut = Some r \<Longrightarrow>
      set (fst (snd r)) \<subseteq> set ud"
  assume step: "(if i < length ud
      then case find_best_track thr store (ud ! i) ut of
           None \<Rightarrow> f thr store (i + 1) m (ud @ [ud ! i]) ut
           | Some best_track \<Rightarrow>
               f thr store (i + 1) (m @ [(best_track, ud ! i)]) ud (remove1 best_track ut)
      else Some (m, ud, ut)) = Some r"
  show "set (fst (snd r)) \<subseteq> set ud"
  proof (cases "i < length ud")
    case False
    with step show ?thesis by auto
  next
    case True
    show ?thesis
    proof (cases "find_best_track thr store (ud ! i) ut")
      case None
      with True step have "f thr store (i + 1) m (ud @ [ud ! i]) ut = Some r" by simp
      from IH [OF this] True show ?thesis by auto
    next
      case (Some bt)
      with True step have
        "f thr store (i + 1) (m @ [(bt, ud ! i)]) ud (remove1 bt ut) = Some r" by simp
      from IH [OF this] show ?thesis .
    qed
  qed
qed

lemma associate_unmatched_detections:
  assumes a: "associate_detections_to_tracks lsa thr store ds trks = Some (matched, ud, ut)"
    and ok: "solver_ok lsa store ds trks"
  shows "set ud \<subseteq> set ds"
proof (cases "trks = [] \<or> ds = []")
  case True
  with a show ?thesis by (auto simp: associate_detections_to_tracks_def split: if_splits)
next
  case False
  then have ne: "trks \<noteq> []" "ds \<noteq> []" by simp_all
  show ?thesis
  proof (cases lsa)
    case None
    with a ne have "greedy_loop thr store 0 [] (sort_by_confidence_desc ds) trks
                      = Some (matched, ud, ut)"
      by (simp add: associate_detections_to_tracks_def greedy_assignment_def)
    from greedy_loop_unmatched_detections [OF this] show ?thesis
      by (simp add: sort_by_confidence_desc_def)
  next
    case (Some solve)
    let ?cm = "cost_matrix store ds trks"
    let ?rej = "filter (\<lambda>(i, j). \<not> ?cm ! i ! j < 1 - thr) (zip (fst (solve ?cm)) (snd (solve ?cm)))"
    from ok Some have r: "lsa_result_ok (length trks) (length ds) (solve ?cm)"
      by (simp add: solver_ok_def)
    from a [unfolded Some associate_solver_eq [OF ne]]
    have ud: "ud = map (\<lambda>(i, j). ds ! j) ?rej
           @ map (\<lambda>j. ds ! j) (filter (\<lambda>j. j \<notin> set (snd (solve ?cm))) [0..<length ds])"
      by simp
    have "\<And>i j. (i, j) \<in> set ?rej \<Longrightarrow> ds ! j \<in> set ds"
      using lsa_pairs_in_range [OF r] by auto
    then show ?thesis unfolding ud by auto
  qed
qed

lemma length_apply_matches: "length (apply_matches m s) = length s"
  unfolding apply_matches_def
  by (induction m arbitrary: s) (simp_all add: case_prod_beta)

lemma dconf_high_confidence: "d \<in> set (high_confidence ds) \<Longrightarrow> 0.5 \<le> dconf d"
  by (simp add: high_confidence_def)

lemma confidence_new_track: "confidence (new_track n d) = dconf d"
  by (simp add: new_track_def Track_init_fields)

lemma confidence_mark_missed: "confidence (mark_missed t) = confidence t"
  by (simp add: mark_missed_def)

text \<open>
  On both paths of the associator, every track a call appends to \<^verbatim>\<open>self.tracks\<close> was
  made from a detection of confidence at least 0.5 (with a solver that answers Stage A
  as the library documents).
\<close>

lemma created_tracks_are_high_confidence:
  assumes u: "update_before_eviction lsa self ds = Some mid"
    and ok: "solver_ok lsa (predict_all (tracks self))
               (high_confidence (enumerate_detections ds))
               (tracks_in_state Confirmed (predict_all (tracks self)))"
  shows "length (tracks self) \<le> length (tracks mid)
     \<and> list_all (\<lambda>t. 0.5 \<le> confidence t) (drop (length (tracks self)) (tracks mid))"
proof -
  from u obtain m1 u1 c1 m2 m3 where
    a: "associate_detections_to_tracks lsa (iou_threshold self) (predict_all (tracks self))
             (high_confidence (enumerate_detections ds))
             (tracks_in_state Confirmed (predict_all (tracks self))) = Some (m1, u1, c1)"
    and mid: "mid = self\<lparr>frame_count := frame_count self + 1,
                tracks := mark_unmatched (map fst (m1 @ m2 @ m3))
                  (fst (fold create_track (filter (\<lambda>d. d \<notin> set (map snd m2)) u1)
                     (apply_matches m3 (apply_matches m2 (apply_matches m1
                        (predict_all (tracks self)))), next_id self))),
                next_id := snd (fold create_track (filter (\<lambda>d. d \<notin> set (map snd m2)) u1)
                     (apply_matches m3 (apply_matches m2 (apply_matches m1
                        (predict_all (tracks self)))), next_id self))\<rparr>"
    by (rule update_before_eviction_elim)
  let ?new = "filter (\<lambda>d. d \<notin> set (map snd m2)) u1"
  let ?s4 = "apply_matches m3 (apply_matches m2 (apply_matches m1 (predict_all (tracks self))))"
  let ?am = "map fst (m1 @ m2 @ m3)"
  let ?n = "length (tracks self)"
  have l4: "length ?s4 = ?n"
    by (simp add: length_apply_matches length_predict_all)
  have high: "\<And>d. d \<in> set ?new \<Longrightarrow> 0.5 \<le> dconf d"
    using associate_unmatched_detections [OF a ok] dconf_high_confidence by auto
  let ?created = "?s4 @ map (\<lambda>k. new_track (next_id self + int k) (?new ! k)) [0..<length ?new]"
  have tm: "tracks mid = mark_unmatched ?am ?created"
    unfolding mid by (simp add: fold_create_track_fst)
  have len: "length (tracks mid) = ?n + length ?new"
    unfolding tm by (simp add: mark_unmatched_def l4)
  have "\<And>i. i < length ?new \<Longrightarrow> 0.5 \<le> confidence (tracks mid ! (?n + i))"
  proof -
    fix i
    assume i: "i < length ?new"
    then have c: "?created ! (?n + i) = new_track (next_id self + int i) (?new ! i)"
      using l4 by (simp add: nth_append)
    from i have "?new ! i \<in> set ?new" by (rule nth_mem)
    from high [OF this] have h: "0.5 \<le> confidence (?created ! (?n + i))"
      unfolding c confidence_new_track .
    have "tracks mid ! (?n + i) = (if ?n + i \<notin> set ?am then mark_missed (?created ! (?n + i))
                                  else ?created ! (?n + i))"
      unfolding tm mark_unmatched_def using i l4 by simp
    with h show "0.5 \<le> confidence (tracks mid ! (?n + i))"
      by (simp add: confidence_mark_missed)
  qed
  then have "list_all (\<lambda>t. 0.5 \<le> confidence t) (drop ?n (tracks mid))"
    unfolding list_all_length using len by simp
  with len show ?thesis by simp
qed

subsection \<open>A frame with one track and one detection on the greedy fallback\<close>

lemma greedy_single_match:
  assumes "thr < iou (bbox (store ! r)) (dbbox d)" and "0 \<le> thr"
  shows "associate_detections_to_tracks None thr store [d] [r] = Some ([(r, d)], [d], [])"
proof -
  have f: "find_best_track thr store d [r] = Some r"
    using assms by (simp add: find_best_track_def best_track_step_def)
  have "greedy_loop thr store 0 [] [d] [r] = greedy_loop thr store 1 [(r, d)] [d] []"
    by (subst greedy_loop.simps) (simp add: f)
  also have "\<dots> = Some ([(r, d)], [d], [])"
    by (subst greedy_loop.simps) simp
  finally show ?thesis
    by (simp add: associate_detections_to_tracks_def greedy_assignment_def
        sort_by_confidence_desc_def)
qed

lemma apply_matches_single:
  "apply_matches [(0, d)] [t] = [Track_update t (dbbox d) (dconf d)]"
  by (simp add: apply_matches_def)

lemma tracks_in_state_single:
  "tracks_in_state s [t] = (if state t = s then [0] else [])"
  by (simp add: tracks_in_state_def)

lemma mark_unmatched_single: "mark_unmatched [0] [t] = [t]"
  by (simp add: mark_unmatched_def)

lemma mark_unmatched_pair: "mark_unmatched [0] [t, u] = [t, mark_missed u]"
  by (simp add: mark_unmatched_def)

lemma predict_all_single: "predict_all [t] = [fst (predict t)]"
  by (simp add: predict_all_def)

lemma greedy_frame_tentative:
  assumes t: "tracks self = [t]"
    and s: "state t = Tentative"
    and b: "iou_threshold self < iou (bbox t) person_box"
    and thr: "0 \<le> iou_threshold self"
  shows "update_before_eviction None self [person_detection] =
     Some (self\<lparr>frame_count := frame_count self + 1,
                tracks := [Track_update (fst (predict t)) person_box 0.9],
                next_id := next_id self\<rparr>)"
proof -
  let ?d = "(0, person_detection) :: det_obj"
  let ?p = "fst (predict t)"
  have sp: "state ?p = Tentative" using s by (simp add: predict_fields)
  have bp: "iou_threshold self < iou (bbox ([?p] ! 0)) (dbbox ?d)"
    using b by (simp add: predict_bbox dbbox_simps)
  have a: "associate_detections_to_tracks None (iou_threshold self) (predict_all (tracks self))
             (high_confidence (enumerate_detections [person_detection]))
             (tracks_in_state Confirmed (predict_all (tracks self))) = Some ([], [?d], [])"
    unfolding t predict_all_single tracks_in_state_single enumerate_single high_single_person
    by (simp add: sp associate_no_tracks)
  have b': "associate_detections_to_tracks None (iou_threshold self)
             (apply_matches [] (predict_all (tracks self))) [?d]
             (tracks_in_state Tentative (predict_all (tracks self))) = Some ([(0, ?d)], [?d], [])"
    unfolding t predict_all_single tracks_in_state_single apply_matches_Nil
    by (simp add: sp greedy_single_match [OF bp thr])
  have c: "associate_detections_to_tracks None (iou_threshold self)
             (apply_matches [(0, ?d)] (apply_matches [] (predict_all (tracks self))))
             (low_confidence (enumerate_detections [person_detection]))
             (filter (\<lambda>t. t \<notin> set (map fst [(0 :: nat, ?d)])) []) = Some ([], [], [])"
    unfolding enumerate_single low_single_person
    by (simp add: associate_no_tracks)
  show ?thesis
    unfolding update_before_eviction_stages [OF a b' c]
    unfolding t predict_all_single apply_matches_Nil apply_matches_single
    by (simp add: mark_unmatched_single dbbox_simps dconf_person)
qed

lemma greedy_frame_confirmed:
  assumes t: "tracks self = [t]"
    and s: "state t = Confirmed"
    and b: "iou_threshold self < iou (bbox t) person_box"
    and thr: "0 \<le> iou_threshold self"
  shows "update_before_eviction None self [person_detection] =
     Some (self\<lparr>frame_count := frame_count self + 1,
                tracks := [Track_update (fst (predict t)) person_box 0.9,
                           mark_missed (new_track (next_id self) (0, person_detection))],
                next_id := next_id self + 1\<rparr>)"
proof -
  let ?d = "(0, person_detection) :: det_obj"
  let ?p = "fst (predict t)"
  have sp: "state ?p = Confirmed" using s by (simp add: predict_fields)
  have bp: "iou_threshold self < iou (bbox ([?p] ! 0)) (dbbox ?d)"
    using b by (simp add: predict_bbox dbbox_simps)
  have a: "associate_detections_to_tracks None (iou_threshold self) (predict_all (tracks self))
             (high_confidence (enumerate_detections [person_detection]))
             (tracks_in_state Confirmed (predict_all (tracks self))) = Some ([(0, ?d)], [?d], [])"
    unfolding t predict_all_single tracks_in_state_single enumerate_single high_single_person
    by (simp add: sp greedy_single_match [OF bp thr])
  have b': "associate_detections_to_tracks None (iou_threshold self)
             (apply_matches [(0, ?d)] (predict_all (tracks self))) [?d]
             (tracks_in_state Tentative (predict_all (tracks self))) = Some ([], [?d], [])"
    unfolding t predict_all_single tracks_in_state_single
    by (simp add: sp associate_no_tracks)
  have c: "associate_detections_to_tracks None (iou_threshold self)
             (apply_matches [] (apply_matches [(0, ?d)] (predict_all (tracks self))))
             (low_confidence (enumerate_detections [person_detection]))
             (filter (\<lambda>t. t \<notin> set (map fst ([] :: (track_ref \<times> det_obj) list))) [])
           = Some ([], [], [])"
    unfolding enumerate_single low_single_person
    by (simp add: associate_no_tracks)
  show ?thesis
    unfolding update_before_eviction_stages [OF a b' c]
    unfolding t predict_all_single apply_matches_Nil apply_matches_single
    by (simp add: mark_unmatched_pair dbbox_simps dconf_person create_track_def)
qed

subsection \<open>Scenario 1 on the greedy fallback\<close>

lemma first_track_eval:
  "first_track =
     \<lparr> bbox = (0, 0, 10, 10), confidence = 0.9, class_id = 0, class_name = ''person'',
       track_id = 1, hits = 1, age = 1, time_since_update = 1, state = Tentative,
       history = [(0, 0, 10, 10)], confidence_history = [0.9],
       velocity = (0, 0), acceleration = (0, 0),
       stability_score = 1, consistency_score = 1, quality_score = 0.9 * 0.95 \<rparr>"
  by (simp add: first_track_def new_track_def dbbox_def dconf_def person_detection_def
      person_box_def Track_init_def mark_missed_def)

lemma predict_first_track: "fst (predict first_track) = first_track"
  unfolding first_track_eval by (simp add: predict_def)

lemma seen_twice_eval:
  "seen_twice =
     \<lparr> bbox = (0, 0, 10, 10), confidence = 0.9, class_id = 0, class_name = ''person'',
       track_id = 1, hits = 2, age = 2, time_since_update = 0, state = Tentative,
       history = [(0, 0, 10, 10), (0, 0, 10, 10)], confidence_history = [0.9, 0.9],
       velocity = (0, 0), acceleration = (0, 0),
       stability_score = 1, consistency_score = 1, quality_score = (0.9 + 1 + 1) / 3 \<rparr>"
  unfolding seen_twice_def predict_first_track
  unfolding first_track_eval
  by (simp add: person_box_def Track_update_steps)

lemma predict_seen_twice: "fst (predict seen_twice) = seen_twice"
  unfolding seen_twice_eval by (simp add: predict_def Let_def)

lemma seen_thrice_eval:
  "seen_thrice =
     \<lparr> bbox = (0, 0, 10, 10), confidence = 0.9, class_id = 0, class_name = ''person'',
       track_id = 1, hits = 3, age = 3, time_since_update = 0, state = Confirmed,
       history = [(0, 0, 10, 10), (0, 0, 10, 10), (0, 0, 10, 10)],
       confidence_history = [0.9, 0.9, 0.9],
       velocity = (0, 0), acceleration = (0, 0),
       stability_score = 1, consistency_score = 1, quality_score = (0.9 + 1 + 1) / 3 \<rparr>"
  unfolding seen_thrice_def predict_seen_twice
  unfolding seen_twice_eval
  by (simp add: person_box_def Track_update_steps last_n_short bbox_variations_3
      calculate_bbox_variation_same np_mean_zero2 np_std_const3)

lemma greedy_frame_1:
  "update None default_tracker [person_detection]
     = Some \<lparr> max_age = 30, min_hits = 3, iou_threshold = 0.3, tracks = [first_track],
              frame_count = 1, next_id = 2 \<rparr>"
proof -
  have t: "tracks default_tracker = []"
    by (simp add: default_tracker_def EnhancedTracker_init_def)
  show ?thesis
    unfolding update_def update_before_eviction_no_tracks [OF t] enumerate_single
      high_single_person
    by (simp add: default_tracker_def EnhancedTracker_init_def remove_old_tracks_def
        first_track_def [symmetric] first_track_fields)
qed

lemma state_first_track: "state first_track = Tentative"
  by (simp add: first_track_eval)

lemma bbox_first_track: "bbox first_track = person_box"
  by (simp add: first_track_eval person_box_def)

lemma state_seen_twice: "state seen_twice = Tentative"
  by (simp add: seen_twice_eval)

lemma bbox_seen_twice: "bbox seen_twice = person_box"
  by (simp add: seen_twice_def Track_update_fields)

lemma state_seen_thrice: "state seen_thrice = Confirmed"
  by (simp add: seen_thrice_eval)

lemma bbox_seen_thrice: "bbox seen_thrice = person_box"
  by (simp add: seen_thrice_def Track_update_fields)

lemma greedy_frame_2:
  "update None \<lparr> max_age = 30, min_hits = 3, iou_threshold = 0.3, tracks = [first_track],
              frame_count = 1, next_id = 2 \<rparr> [person_detection]
     = Some \<lparr> max_age = 30, min_hits = 3, iou_threshold = 0.3, tracks = [seen_twice],
              frame_count = 2, next_id = 2 \<rparr>"
proof -
  let ?s = "\<lparr> max_age = 30, min_hits = 3, iou_threshold = 0.3, tracks = [first_track],
              frame_count = 1, next_id = 2 \<rparr>"
  have t: "tracks ?s = [first_track]" by simp
  have b: "iou_threshold ?s < iou (bbox first_track) person_box"
    by (simp add: bbox_first_track iou_person_person)
  have thr: "0 \<le> iou_threshold ?s" by simp
  have y: "time_since_update seen_twice < 30"
    by (simp add: seen_twice_def Track_update_fields)
  show ?thesis
    unfolding update_def greedy_frame_tentative [OF t state_first_track b thr]
      seen_twice_def [symmetric]
    using y by (simp add: remove_old_tracks_def)
qed

lemma greedy_frame_3:
  "update None \<lparr> max_age = 30, min_hits = 3, iou_threshold = 0.3, tracks = [seen_twice],
              frame_count = 2, next_id = 2 \<rparr> [person_detection]
     = Some tracker_with_confirmed_track"
proof -
  let ?s = "\<lparr> max_age = 30, min_hits = 3, iou_threshold = 0.3, tracks = [seen_twice],
              frame_count = 2, next_id = 2 \<rparr>"
  have t: "tracks ?s = [seen_twice]" by simp
  have b: "iou_threshold ?s < iou (bbox seen_twice) person_box"
    by (simp add: bbox_seen_twice iou_person_person)
  have thr: "0 \<le> iou_threshold ?s" by simp
  have y: "time_since_update seen_thrice < 30"
    by (simp add: seen_thrice_def Track_update_fields)
  show ?thesis
    unfolding update_def greedy_frame_tentative [OF t state_seen_twice b thr]
      seen_thrice_def [symmetric]
    using y by (simp add: remove_old_tracks_def tracker_with_confirmed_track_def)
qed

lemma greedy_frame_4:
  "update None tracker_with_confirmed_track [person_detection]
     = Some tracker_with_duplicate_track"
proof -
  have t: "tracks tracker_with_confirmed_track = [seen_thrice]"
    by (simp add: tracker_with_confirmed_track_def)
  have b: "iou_threshold tracker_with_confirmed_track < iou (bbox seen_thrice) person_box"
    by (simp add: bbox_seen_thrice iou_person_person tracker_with_confirmed_track_def)
  have thr: "0 \<le> iou_threshold tracker_with_confirmed_track"
    by (simp add: tracker_with_confirmed_track_def)
  have n: "next_id tracker_with_confirmed_track = 2"
    by (simp add: tracker_with_confirmed_track_def)
  have y: "time_since_update seen_four_times < 30" "time_since_update second_track < 30"
    by (simp_all add: seen_four_times_def Track_update_fields second_track_fields)
  show ?thesis
    unfolding update_def greedy_frame_confirmed [OF t state_seen_thrice b thr]
      seen_four_times_def [symmetric] n second_track_def [symmetric]
    using y
    by (simp add: remove_old_tracks_def tracker_with_confirmed_track_def
        tracker_with_duplicate_track_def)
qed

text \<open>
  C7. Scenario 1 continued for a fourth frame, without \<^verbatim>\<open>scipy\<close>. After three frames
  the tracker holds track 1, confirmed. In the fourth frame the frame's only detection is
  matched to track 1 in Stage A (the track is updated with it), and the creation loop
  then makes track 2 from the same detection: \<^verbatim>\<open>greedy_assignment\<close> left the matched
  detection in the list it returns as unmatched, and Stage B has no tentative track to
  take it.
\<close>

theorem matched_detection_creates_track:
  "update_all None default_tracker [[person_detection], [person_detection], [person_detection]]
     = Some tracker_with_confirmed_track
   \<and> tracks tracker_with_confirmed_track = [seen_thrice]
   \<and> state seen_thrice = Confirmed
   \<and> update None tracker_with_confirmed_track [person_detection]
       = Some tracker_with_duplicate_track
   \<and> tracks tracker_with_duplicate_track = [seen_four_times, second_track]
   \<and> seen_four_times = Track_update (fst (predict seen_thrice)) person_box 0.9
   \<and> second_track = mark_missed (new_track 2 (0, person_detection))
   \<and> track_id second_track = 2"
  by (simp add: greedy_frame_1 greedy_frame_2 greedy_frame_3 greedy_frame_4
      tracker_with_confirmed_track_def [THEN arg_cong [where f = tracks]]
      tracker_with_duplicate_track_def [THEN arg_cong [where f = tracks]]
      state_seen_thrice second_track_fields)
     (simp add: seen_four_times_def second_track_def)

subsection \<open>A track that no call has matched yet\<close>

lemma predict_scores:
  "stability_score (fst (predict t)) = stability_score t"
  "consistency_score (fst (predict t)) = consistency_score t"
  "quality_score (fst (predict t)) = quality_score t"
  "confidence (fst (predict t)) = confidence t"
  by (simp_all add: predict_def Let_def)

lemma mark_missed_scores:
  "stability_score (mark_missed t) = stability_score t"
  "consistency_score (mark_missed t) = consistency_score t"
  "quality_score (mark_missed t) = quality_score t * 0.95"
  "confidence (mark_missed t) = confidence t"
  by (simp_all add: mark_missed_def)

lemma missed_call_fields:
  "stability_score (missed_call t) = stability_score t"
  "consistency_score (missed_call t) = consistency_score t"
  "quality_score (missed_call t) = quality_score t * 0.95"
  "confidence (missed_call t) = confidence t"
  "hits (missed_call t) = hits t"
  "track_id (missed_call t) = track_id t"
  by (simp_all add: missed_call_def mark_missed_scores predict_scores mark_missed_fields
      predict_fields)

lemma new_track_scores:
  "stability_score (new_track n d) = 1"
  "consistency_score (new_track n d) = 1"
  "quality_score (new_track n d) = dconf d"
  "confidence (new_track n d) = dconf d"
  "hits (new_track n d) = 1"
  "track_id (new_track n d) = n"
  by (simp_all add: new_track_def Track_init_def)

lemma never_updated_Suc: "missed_call (never_updated n d k) = never_updated n d (k + 1)"
  by (simp add: never_updated_def)

lemma never_updated_fields:
  "stability_score (never_updated n d k) = 1"
  "consistency_score (never_updated n d k) = 1"
  "confidence (never_updated n d k) = dconf d"
  "hits (never_updated n d k) = 1"
  "track_id (never_updated n d k) = n"
  unfolding never_updated_def
  by (induction k)
    (simp_all add: missed_call_fields mark_missed_scores mark_missed_fields new_track_scores)

lemma funpow_quality:
  fixes a :: real and f :: "track \<Rightarrow> track"
  assumes "\<And>t. quality_score (f t) = quality_score t * a"
  shows "quality_score ((f ^^ k) t) = quality_score t * a ^ k"
  by (induction k) (simp_all add: assms)

lemma never_updated_quality:
  "quality_score (never_updated n d k) = 0.95 ^ (k + 1) * dconf d"
proof -
  have "quality_score (never_updated n d k)
          = quality_score (mark_missed (new_track n d)) * 0.95 ^ k"
    unfolding never_updated_def by (rule funpow_quality) (rule missed_call_fields)
  also have "\<dots> = (dconf d * 0.95) * 0.95 ^ k"
    by (simp only: mark_missed_scores new_track_scores)
  also have "\<dots> = 0.95 ^ (k + 1) * dconf d"
    by (simp only: power_add power_one_right mult.commute mult.left_commute)
  finally show ?thesis .
qed

lemma decay_less_one: "(0.95 :: real) ^ (k + 1) < 1"
proof -
  have "(0.95 :: real) ^ k \<le> 1" by (rule power_le_one) simp_all
  then show ?thesis by simp
qed

lemma below_mean:
  fixes c x :: real
  assumes "0 \<le> c" and "c \<le> 1" and "0 \<le> x" and "x < 1"
  shows "x * c < (c + 1 + 1) / 3"
proof -
  from assms have "x * c \<le> c" by (simp add: mult_left_le_one_le)
  moreover have "c < (c + 1 + 1) / 3 \<or> c = 1" using assms by auto
  ultimately show ?thesis using assms by auto
qed

lemma decayed_below_mean:
  fixes c :: real
  assumes "0 \<le> c" and "c \<le> 1"
  shows "0.95 ^ (k + 1) * c < (c + 1 + 1) / 3"
  by (rule below_mean [OF assms _ decay_less_one]) simp

lemma decayed_below_confidence:
  fixes c :: real
  assumes "0 < c"
  shows "0.95 ^ (k + 1) * c < c"
  using mult_strict_right_mono [OF decay_less_one assms, of k] by simp

subsection \<open>Which tracks a call touches\<close>

lemma apply_matches_untouched:
  "i \<notin> fst ` set m \<Longrightarrow> apply_matches m s ! i = s ! i"
  unfolding apply_matches_def
  by (induction m arbitrary: s) (auto simp: case_prod_beta)

lemma hits_list_update:
  "hits (s ! i) \<le> hits (s[t := Track_update (s ! t) b c] ! i)"
  by (cases "t < length s"; cases "i = t")
    (simp_all add: Track_update_fields list_update_beyond)

lemma hits_apply_matches_mono: "hits (s ! i) \<le> hits (apply_matches m s ! i)"
  unfolding apply_matches_def
proof (induction m arbitrary: s)
  case Nil
  then show ?case by simp
next
  case (Cons p m)
  obtain t d where p: "p = (t, d)" by (cases p)
  have "hits (s ! i) \<le> hits (s[t := Track_update (s ! t) (dbbox d) (dconf d)] ! i)"
    by (rule hits_list_update)
  also have "\<dots> \<le> hits (fold (\<lambda>(t, d) s. s[t := Track_update (s ! t) (dbbox d) (dconf d)]) m
                 (s[t := Track_update (s ! t) (dbbox d) (dconf d)]) ! i)"
    by (rule Cons.IH)
  finally show ?case by (simp add: p)
qed

lemma hits_apply_matches_strict:
  "i \<in> fst ` set m \<Longrightarrow> i < length s \<Longrightarrow> hits (s ! i) < hits (apply_matches m s ! i)"
proof (induction m arbitrary: s)
  case Nil
  then show ?case by simp
next
  case (Cons p m)
  obtain t d where p: "p = (t, d)" by (cases p)
  let ?s = "s[t := Track_update (s ! t) (dbbox d) (dconf d)]"
  have e: "apply_matches (p # m) s = apply_matches m ?s"
    by (simp add: apply_matches_def p)
  show ?case
  proof (cases "i = t")
    case True
    with Cons.prems have "hits (s ! i) < hits (?s ! i)" by (simp add: Track_update_fields)
    also have "\<dots> \<le> hits (apply_matches m ?s ! i)" by (rule hits_apply_matches_mono)
    finally show ?thesis unfolding e .
  next
    case False
    with Cons.prems p have "i \<in> fst ` set m" by auto
    moreover have "i < length ?s" using Cons.prems by simp
    ultimately have "hits (?s ! i) < hits (apply_matches m ?s ! i)" by (rule Cons.IH)
    with False show ?thesis unfolding e by simp
  qed
qed

lemma tracks_in_state_range: "t \<in> set (tracks_in_state st s) \<Longrightarrow> t < length s"
  by (simp add: tracks_in_state_def)

lemma find_best_track_mem_aux:
  "fst (fold (best_track_step thr store d) ut acc) = Some t \<Longrightarrow> fst acc = Some t \<or> t \<in> set ut"
proof (induction ut arbitrary: acc)
  case Nil
  then show ?case by simp
next
  case (Cons u ut)
  from Cons.prems
  have "fst (fold (best_track_step thr store d) ut (best_track_step thr store d u acc)) = Some t"
    by simp
  from Cons.IH [OF this]
  have "fst (best_track_step thr store d u acc) = Some t \<or> t \<in> set ut" .
  moreover have "fst (best_track_step thr store d u acc) = Some u
      \<or> fst (best_track_step thr store d u acc) = fst acc"
    by (simp add: best_track_step_def)
  ultimately show ?case by auto
qed

lemma find_best_track_mem: "find_best_track thr store d ut = Some t \<Longrightarrow> t \<in> set ut"
  unfolding find_best_track_def by (drule find_best_track_mem_aux) simp

lemma greedy_loop_refs:
  assumes "greedy_loop thr store i m ud ut = Some r"
  shows "fst ` set (fst r) \<subseteq> fst ` set m \<union> set ut \<and> set (snd (snd r)) \<subseteq> set ut"
proof (rule greedy_loop.raw_induct
    [where P = "\<lambda>thr store i m ud ut r.
       fst ` set (fst r) \<subseteq> fst ` set m \<union> set ut \<and> set (snd (snd r)) \<subseteq> set ut", OF _ assms])
  fix f :: "real \<Rightarrow> track list \<Rightarrow> nat \<Rightarrow> (track_ref \<times> det_obj) list \<Rightarrow> det_obj list
              \<Rightarrow> track_ref list
              \<Rightarrow> ((track_ref \<times> det_obj) list \<times> det_obj list \<times> track_ref list) option"
    and thr store i m ud ut r
  assume IH: "\<And>thr store i m ud ut r. f thr store i m ud ut = Some r \<Longrightarrow>
      fst ` set (fst r) \<subseteq> fst ` set m \<union> set ut \<and> set (snd (snd r)) \<subseteq> set ut"
  assume step: "(if i < length ud
      then case find_best_track thr store (ud ! i) ut of
           None \<Rightarrow> f thr store (i + 1) m (ud @ [ud ! i]) ut
           | Some best_track \<Rightarrow>
               f thr store (i + 1) (m @ [(best_track, ud ! i)]) ud (remove1 best_track ut)
      else Some (m, ud, ut)) = Some r"
  show "fst ` set (fst r) \<subseteq> fst ` set m \<union> set ut \<and> set (snd (snd r)) \<subseteq> set ut"
  proof (cases "i < length ud")
    case False
    with step show ?thesis by auto
  next
    case True
    show ?thesis
    proof (cases "find_best_track thr store (ud ! i) ut")
      case None
      with True step have "f thr store (i + 1) m (ud @ [ud ! i]) ut = Some r" by simp
      from IH [OF this] show ?thesis .
    next
      case (Some bt)
      with True step have
        "f thr store (i + 1) (m @ [(bt, ud ! i)]) ud (remove1 bt ut) = Some r" by simp
      from IH [OF this] find_best_track_mem [OF Some] set_remove1_subset [of bt ut]
      show ?thesis by auto
    qed
  qed
qed

lemma associate_refs:
  assumes a: "associate_detections_to_tracks lsa thr store ds trks = Some (m, ud, ut)"
    and ok: "solver_answers_as_documented lsa"
  shows "fst ` set m \<subseteq> set trks \<and> set ut \<subseteq> set trks"
proof (cases "trks = [] \<or> ds = []")
  case True
  with a show ?thesis by (auto simp: associate_detections_to_tracks_def split: if_splits)
next
  case False
  then have ne: "trks \<noteq> []" "ds \<noteq> []" by simp_all
  show ?thesis
  proof (cases lsa)
    case None
    with a ne have "greedy_loop thr store 0 [] (sort_by_confidence_desc ds) trks
                      = Some (m, ud, ut)"
      by (simp add: associate_detections_to_tracks_def greedy_assignment_def)
    from greedy_loop_refs [OF this] show ?thesis by simp
  next
    case (Some solve)
    let ?cm = "cost_matrix store ds trks"
    let ?pairs = "zip (fst (solve ?cm)) (snd (solve ?cm))"
    from ok ne Some have r: "lsa_result_ok (length trks) (length ds) (solve ?cm)"
      by (simp add: solver_answers_as_documented_def solver_ok_def)
    from a [unfolded Some associate_solver_eq [OF ne]]
    have m: "m = map (\<lambda>(i, j). (trks ! i, ds ! j))
                   (filter (\<lambda>(i, j). ?cm ! i ! j < 1 - thr) ?pairs)"
      and ut: "ut = map (\<lambda>(i, j). trks ! i) (filter (\<lambda>(i, j). \<not> ?cm ! i ! j < 1 - thr) ?pairs)
           @ map (\<lambda>i. trks ! i) (filter (\<lambda>i. i \<notin> set (fst (solve ?cm))) [0..<length trks])"
      by simp_all
    have in_range: "\<And>i j. (i, j) \<in> set ?pairs \<Longrightarrow> trks ! i \<in> set trks"
      using lsa_pairs_in_range [OF r] by auto
    show ?thesis unfolding m ut using in_range by auto
  qed
qed

lemma associate_unmatched_subset:
  assumes a: "associate_detections_to_tracks lsa thr store ds trks = Some (m, ud, ut)"
    and ok: "solver_answers_as_documented lsa"
  shows "set ud \<subseteq> set ds"
proof (cases "trks = [] \<or> ds = []")
  case True
  with a show ?thesis by (auto simp: associate_detections_to_tracks_def split: if_splits)
next
  case False
  with ok have "solver_ok lsa store ds trks"
    by (simp add: solver_answers_as_documented_def)
  with a show ?thesis by (rule associate_unmatched_detections)
qed



lemma created_tracks_eq:
  assumes a: "associate_detections_to_tracks lsa (iou_threshold self) (predict_all (tracks self))
             (high_confidence (enumerate_detections ds))
             (tracks_in_state Confirmed (predict_all (tracks self))) = Some (m1, u1, c1)"
    and b: "associate_detections_to_tracks lsa (iou_threshold self)
             (apply_matches m1 (predict_all (tracks self))) u1
             (tracks_in_state Tentative (predict_all (tracks self))) = Some (m2, u2, t2)"
    and c: "associate_detections_to_tracks lsa (iou_threshold self)
             (apply_matches m2 (apply_matches m1 (predict_all (tracks self))))
             (low_confidence (enumerate_detections ds))
             (filter (\<lambda>t. t \<notin> set (map fst m2)) c1) = Some (m3, u3, x3)"
    and ok: "solver_answers_as_documented lsa"
  shows "drop (length (tracks self))
           (mark_unmatched (map fst (m1 @ m2 @ m3))
              (fst (fold create_track (filter (\<lambda>d. d \<notin> set (map snd m2)) u1)
                 (apply_matches m3 (apply_matches m2 (apply_matches m1
                    (predict_all (tracks self)))), next_id self))))
         = map (\<lambda>k. mark_missed (new_track (next_id self + int k)
                       (filter (\<lambda>d. d \<notin> set (map snd m2)) u1 ! k)))
             [0..<length (filter (\<lambda>d. d \<notin> set (map snd m2)) u1)]"
proof -
  let ?s1 = "predict_all (tracks self)"
  let ?new = "filter (\<lambda>d. d \<notin> set (map snd m2)) u1"
  let ?s4 = "apply_matches m3 (apply_matches m2 (apply_matches m1 ?s1))"
  let ?am = "map fst (m1 @ m2 @ m3)"
  let ?n = "length (tracks self)"
  let ?created = "?s4 @ map (\<lambda>k. new_track (next_id self + int k) (?new ! k)) [0..<length ?new]"
  have l1: "length ?s1 = ?n" by (simp add: length_predict_all)
  have l4: "length ?s4 = ?n" by (simp add: length_apply_matches length_predict_all)
  from associate_refs [OF a ok]
  have r1: "fst ` set m1 \<subseteq> set (tracks_in_state Confirmed ?s1)"
    and rc: "set c1 \<subseteq> set (tracks_in_state Confirmed ?s1)" by simp_all
  from associate_refs [OF b ok]
  have r2: "fst ` set m2 \<subseteq> set (tracks_in_state Tentative ?s1)" by simp
  from associate_refs [OF c ok]
  have r3: "fst ` set m3 \<subseteq> set c1" by auto
  have am: "t < ?n" if "t \<in> set ?am" for t
  proof -
    from that have "t \<in> fst ` set m1 \<or> t \<in> fst ` set m2 \<or> t \<in> fst ` set m3" by auto
    with r1 r2 r3 rc have "t \<in> set (tracks_in_state Confirmed ?s1)
        \<or> t \<in> set (tracks_in_state Tentative ?s1)" by blast
    then have "t < length ?s1" by (auto dest: tracks_in_state_range)
    then show ?thesis by (simp only: l1)
  qed
  have e: "fst (fold create_track ?new (?s4, next_id self)) = ?created"
    by (simp add: fold_create_track_fst)
  have len: "length (mark_unmatched ?am ?created) = ?n + length ?new"
    by (simp add: mark_unmatched_def l4)
  show ?thesis
    unfolding e
  proof (rule nth_equalityI)
    show "length (drop ?n (mark_unmatched ?am ?created))
            = length (map (\<lambda>k. mark_missed (new_track (next_id self + int k) (?new ! k)))
                        [0..<length ?new])"
      using len by simp
  next
    fix i
    assume "i < length (drop ?n (mark_unmatched ?am ?created))"
    with len have i: "i < length ?new" by simp
    from am [of "?n + i"] have n: "?n + i \<notin> set ?am" by auto
    have cr: "?created ! (?n + i) = new_track (next_id self + int i) (?new ! i)"
      using i l4 by (simp add: nth_append)
    have "drop ?n (mark_unmatched ?am ?created) ! i = mark_unmatched ?am ?created ! (?n + i)"
      using i len by simp
    also have "\<dots> = (if ?n + i \<notin> set ?am then mark_missed (?created ! (?n + i))
                     else ?created ! (?n + i))"
      unfolding mark_unmatched_def using i l4 by simp
    also have "\<dots> = mark_missed (new_track (next_id self + int i) (?new ! i))"
      using n cr by simp
    finally show "drop ?n (mark_unmatched ?am ?created) ! i
        = map (\<lambda>k. mark_missed (new_track (next_id self + int k) (?new ! k)))
            [0..<length ?new] ! i"
      using i by simp
  qed
qed

lemma never_updated_0: "never_updated n d 0 = mark_missed (new_track n d)"
  by (simp add: never_updated_def)

lemma created_tracks_are_marked_missed:
  assumes u: "update_before_eviction lsa self ds = Some mid"
    and ok: "solver_answers_as_documented lsa"
  shows "list_all (\<lambda>t. \<exists>d \<in> set (high_confidence (enumerate_detections ds)).
                      t = never_updated (track_id t) d 0)
           (drop (length (tracks self)) (tracks mid))"
proof -
  from u obtain m1 u1 c1 m2 u2 t2 m3 u3 x3 where
    a: "associate_detections_to_tracks lsa (iou_threshold self) (predict_all (tracks self))
             (high_confidence (enumerate_detections ds))
             (tracks_in_state Confirmed (predict_all (tracks self))) = Some (m1, u1, c1)"
    and b: "associate_detections_to_tracks lsa (iou_threshold self)
             (apply_matches m1 (predict_all (tracks self))) u1
             (tracks_in_state Tentative (predict_all (tracks self))) = Some (m2, u2, t2)"
    and c: "associate_detections_to_tracks lsa (iou_threshold self)
             (apply_matches m2 (apply_matches m1 (predict_all (tracks self))))
             (low_confidence (enumerate_detections ds))
             (filter (\<lambda>t. t \<notin> set (map fst m2)) c1) = Some (m3, u3, x3)"
    and mid: "mid = self\<lparr>frame_count := frame_count self + 1,
                tracks := mark_unmatched (map fst (m1 @ m2 @ m3))
                  (fst (fold create_track (filter (\<lambda>d. d \<notin> set (map snd m2)) u1)
                     (apply_matches m3 (apply_matches m2 (apply_matches m1
                        (predict_all (tracks self)))), next_id self))),
                next_id := snd (fold create_track (filter (\<lambda>d. d \<notin> set (map snd m2)) u1)
                     (apply_matches m3 (apply_matches m2 (apply_matches m1
                        (predict_all (tracks self)))), next_id self))\<rparr>"
    by (rule update_before_eviction_elim)
  let ?new = "filter (\<lambda>d. d \<notin> set (map snd m2)) u1"
  have d: "drop (length (tracks self)) (tracks mid)
      = map (\<lambda>k. mark_missed (new_track (next_id self + int k) (?new ! k))) [0..<length ?new]"
    unfolding mid using created_tracks_eq [OF a b c ok] by simp
  have high: "set ?new \<subseteq> set (high_confidence (enumerate_detections ds))"
    using associate_unmatched_subset [OF a ok] by auto
  show ?thesis
    unfolding d list_all_iff
  proof
    fix t
    assume "t \<in> set (map (\<lambda>k. mark_missed (new_track (next_id self + int k) (?new ! k)))
                        [0..<length ?new])"
    then obtain k where k: "k < length ?new"
      and t: "t = mark_missed (new_track (next_id self + int k) (?new ! k))" by auto
    from k have "?new ! k \<in> set ?new" by (rule nth_mem)
    with high have h: "?new ! k \<in> set (high_confidence (enumerate_detections ds))" by auto
    have "t = never_updated (track_id t) (?new ! k) 0"
      unfolding never_updated_0 t by (simp add: mark_missed_fields new_track_scores)
    with h show "\<exists>d \<in> set (high_confidence (enumerate_detections ds)).
                   t = never_updated (track_id t) d 0" ..
  qed
qed

lemma nth_predict_all: "i < length s \<Longrightarrow> predict_all s ! i = fst (predict (s ! i))"
  by (simp add: predict_all_def)

lemma update_call_on_track:
  assumes u: "update_before_eviction lsa self ds = Some mid"
    and i: "i < length (tracks self)"
  shows "tracks mid ! i = missed_call (tracks self ! i)
     \<or> hits (tracks self ! i) < hits (tracks mid ! i)"
proof -
  from u obtain m1 u1 m2 m3 where
    mid: "mid = self\<lparr>frame_count := frame_count self + 1,
                tracks := mark_unmatched (map fst (m1 @ m2 @ m3))
                  (fst (fold create_track (filter (\<lambda>d. d \<notin> set (map snd m2)) u1)
                     (apply_matches m3 (apply_matches m2 (apply_matches m1
                        (predict_all (tracks self)))), next_id self))),
                next_id := snd (fold create_track (filter (\<lambda>d. d \<notin> set (map snd m2)) u1)
                     (apply_matches m3 (apply_matches m2 (apply_matches m1
                        (predict_all (tracks self)))), next_id self))\<rparr>"
    by (rule update_before_eviction_elim)
  let ?s1 = "predict_all (tracks self)"
  let ?s2 = "apply_matches m1 ?s1"
  let ?s3 = "apply_matches m2 ?s2"
  let ?s4 = "apply_matches m3 ?s3"
  let ?new = "filter (\<lambda>d. d \<notin> set (map snd m2)) u1"
  let ?am = "map fst (m1 @ m2 @ m3)"
  let ?created = "?s4 @ map (\<lambda>k. new_track (next_id self + int k) (?new ! k)) [0..<length ?new]"
  have l2: "length ?s2 = length (tracks self)" "length ?s3 = length (tracks self)"
    and l4: "length ?s4 = length (tracks self)"
    by (simp_all add: length_apply_matches length_predict_all)
  have tm: "tracks mid = mark_unmatched ?am ?created"
    unfolding mid by (simp add: fold_create_track_fst)
  have cr: "?created ! i = ?s4 ! i" using i l4 by (simp add: nth_append)
  have nth: "tracks mid ! i = (if i \<notin> set ?am then mark_missed (?s4 ! i) else ?s4 ! i)"
    unfolding tm mark_unmatched_def using i l4 cr by simp
  have h1: "hits (?s1 ! i) = hits (tracks self ! i)"
    using i by (simp add: nth_predict_all predict_fields)
  show ?thesis
  proof (cases "i \<in> set ?am")
    case False
    then have "i \<notin> fst ` set m1" "i \<notin> fst ` set m2" "i \<notin> fst ` set m3" by auto
    then have "?s4 ! i = ?s1 ! i" by (simp add: apply_matches_untouched)
    with False nth i show ?thesis by (simp add: nth_predict_all missed_call_def)
  next
    case True
    have m12: "hits (?s1 ! i) \<le> hits (?s2 ! i)" by (rule hits_apply_matches_mono)
    have m23: "hits (?s2 ! i) \<le> hits (?s3 ! i)" by (rule hits_apply_matches_mono)
    have m34: "hits (?s3 ! i) \<le> hits (?s4 ! i)" by (rule hits_apply_matches_mono)
    from True consider "i \<in> fst ` set m1" | "i \<in> fst ` set m2" | "i \<in> fst ` set m3" by auto
    then have "hits (?s1 ! i) < hits (?s4 ! i)"
    proof cases
      case 1
      from hits_apply_matches_strict [OF 1, of ?s1] i
      have "hits (?s1 ! i) < hits (?s2 ! i)" by (simp add: length_predict_all)
      with m23 m34 show ?thesis by simp
    next
      case 2
      from hits_apply_matches_strict [OF 2, of ?s2] i l2
      have "hits (?s2 ! i) < hits (?s3 ! i)" by simp
      with m12 m34 show ?thesis by simp
    next
      case 3
      from hits_apply_matches_strict [OF 3, of ?s3] i l2
      have "hits (?s3 ! i) < hits (?s4 ! i)" by simp
      with m12 m23 show ?thesis by simp
    qed
    with True nth h1 show ?thesis by simp
  qed
qed

subsection \<open>A frame with one track and one detection that do not overlap\<close>

lemma solver_none_as_documented: "solver_answers_as_documented None"
  by (simp add: solver_answers_as_documented_def solver_ok_def)

lemma diagonal_as_documented: "solver_answers_as_documented (Some diagonal)"
  unfolding solver_answers_as_documented_def solver_ok_def option.case
proof (intro allI impI)
  fix store :: "track list" and detections :: "det_obj list" and trks :: "track_ref list"
  assume ne: "trks \<noteq> []" "detections \<noteq> []"
  let ?cm = "cost_matrix store detections trks"
  have l: "length ?cm = length trks" by (simp add: cost_matrix_def)
  from ne have h: "length (hd ?cm) = length detections"
    by (cases trks) (simp_all add: cost_matrix_def)
  show "lsa_result_ok (length trks) (length detections) (diagonal ?cm)"
    unfolding lsa_result_ok_def diagonal_def l h by (simp add: list_all_iff)
qed

lemma diagonal_1x1: "diagonal [[a]] = ([0], [0])"
  by (simp add: diagonal_def)

lemma solver_single_unmatched:
  assumes "\<not> thr < iou (bbox (store ! r)) (dbbox d)"
  shows "associate_detections_to_tracks (Some diagonal) thr store [d] [r] = Some ([], [d], [r])"
proof -
  have ne: "[r] \<noteq> []" "[d] \<noteq> []" by simp_all
  have cm: "cost_matrix store [d] [r] = [[1 - iou (bbox (store ! r)) (dbbox d)]]"
    by (simp add: cost_matrix_def)
  show ?thesis
    unfolding associate_solver_eq [OF ne] cm diagonal_1x1
    using assms by simp
qed

lemma solver_frame_unmatched:
  assumes t: "tracks self = [t]"
    and s: "state t = Tentative"
    and b: "\<not> iou_threshold self < iou (bbox t) (det_bbox d)"
    and h: "0.5 \<le> det_confidence d"
  shows "update_before_eviction (Some diagonal) self [d] =
     Some (self\<lparr>frame_count := frame_count self + 1,
                tracks := [missed_call t, mark_missed (new_track (next_id self) (0, d))],
                next_id := next_id self + 1\<rparr>)"
proof -
  let ?d = "(0, d) :: det_obj"
  let ?p = "fst (predict t)"
  have sp: "state ?p = Tentative" using s by (simp add: predict_fields)
  have bp: "\<not> iou_threshold self < iou (bbox ([?p] ! 0)) (dbbox ?d)"
    using b by (simp add: predict_bbox dbbox_def)
  have hi: "high_confidence [?d] = [?d]" using h by (simp add: high_confidence_def dconf_def)
  have lo: "low_confidence [?d] = []" using h by (simp add: low_confidence_def dconf_def)
  have a: "associate_detections_to_tracks (Some diagonal) (iou_threshold self)
             (predict_all (tracks self)) (high_confidence (enumerate_detections [d]))
             (tracks_in_state Confirmed (predict_all (tracks self))) = Some ([], [?d], [])"
    unfolding t predict_all_single tracks_in_state_single enumerate_single hi
    by (simp add: sp associate_no_tracks)
  have b': "associate_detections_to_tracks (Some diagonal) (iou_threshold self)
             (apply_matches [] (predict_all (tracks self))) [?d]
             (tracks_in_state Tentative (predict_all (tracks self))) = Some ([], [?d], [0])"
    unfolding t predict_all_single tracks_in_state_single apply_matches_Nil
    by (simp add: sp solver_single_unmatched [OF bp])
  have c: "associate_detections_to_tracks (Some diagonal) (iou_threshold self)
             (apply_matches [] (apply_matches [] (predict_all (tracks self))))
             (low_confidence (enumerate_detections [d]))
             (filter (\<lambda>t. t \<notin> set (map fst ([] :: (track_ref \<times> det_obj) list))) [])
           = Some ([], [], [])"
    unfolding enumerate_single lo by (simp add: associate_no_tracks)
  show ?thesis
    unfolding update_before_eviction_stages [OF a b' c]
    unfolding t predict_all_single apply_matches_Nil
    by (simp add: mark_unmatched_Nil create_track_def missed_call_def)
qed

lemma greedy_frame_unmatched_hangs:
  assumes t: "tracks self = [t]"
    and s: "state t = Tentative"
    and b: "\<not> iou_threshold self < iou (bbox t) (det_bbox d)"
    and h: "0.5 \<le> det_confidence d"
  shows "update None self [d] = None"
proof -
  let ?d = "(0, d) :: det_obj"
  let ?p = "fst (predict t)"
  have sp: "state ?p = Tentative" using s by (simp add: predict_fields)
  have bp: "\<forall>r \<in> set [0]. \<not> iou (bbox ([?p] ! r)) (dbbox ?d) > iou_threshold self"
    using b by (simp add: predict_bbox dbbox_def)
  have hi: "high_confidence [?d] = [?d]" using h by (simp add: high_confidence_def dconf_def)
  have a: "associate_detections_to_tracks None (iou_threshold self)
             (predict_all (tracks self)) (high_confidence (enumerate_detections [d]))
             (tracks_in_state Confirmed (predict_all (tracks self))) = Some ([], [?d], [])"
    unfolding t predict_all_single tracks_in_state_single enumerate_single hi
    by (simp add: sp associate_no_tracks)
  have g: "greedy_assignment (iou_threshold self) [?p] [?d] [0] = None"
    by (rule greedy_assignment_diverges [of ?d, OF _ bp]) simp
  have b': "associate_detections_to_tracks None (iou_threshold self)
             (apply_matches [] (predict_all (tracks self))) [?d]
             (tracks_in_state Tentative (predict_all (tracks self))) = None"
    unfolding t predict_all_single tracks_in_state_single apply_matches_Nil
    by (simp add: sp associate_detections_to_tracks_def g)
  have "update_before_eviction None self [d] = None"
    unfolding update_before_eviction_def Let_def
    by (simp only: a b' bind.simps prod.case)
  then show ?thesis by (simp add: update_def)
qed

lemma iou_person_degenerate: "iou person_box (det_bbox degenerate_detection) = 0"
  by (simp add: iou_def person_box_def degenerate_detection_def)

lemma conf_degenerate: "0.5 \<le> det_confidence degenerate_detection"
  by (simp add: degenerate_detection_def)

lemma tracks_after_frame_0: "tracks tracker_after_frame_0 = [first_track]"
  by (simp add: tracker_after_frame_0_def)

lemma no_overlap_after_frame_0:
  "\<not> iou_threshold tracker_after_frame_0 < iou (bbox first_track) (det_bbox degenerate_detection)"
  "\<not> iou_threshold tracker_after_frame_0 < iou (bbox first_track) (det_bbox far_detection)"
  by (simp_all add: tracker_after_frame_0_def bbox_first_track iou_person_degenerate
      iou_person_far far_detection_def)

lemma conf_far: "0.5 \<le> det_confidence far_detection"
  by (simp add: far_detection_def)


lemma solver_frame_far:
  "update_before_eviction (Some diagonal) tracker_after_frame_0 [far_detection]
     = Some tracker_with_far_track"
  unfolding solver_frame_unmatched [OF tracks_after_frame_0 state_first_track
      no_overlap_after_frame_0(2) conf_far]
  by (simp add: tracker_after_frame_0_def tracker_with_far_track_def)

lemma greedy_frame_degenerate_hangs:
  "update None tracker_after_frame_0 [degenerate_detection] = None"
  by (rule greedy_frame_unmatched_hangs [OF tracks_after_frame_0 state_first_track
      no_overlap_after_frame_0(1) conf_degenerate])



subsection \<open>The quality of a track before its first update\<close>

lemma reported_quality: "q_quality (get_track_quality t) = quality_score t"
  by (simp add: get_track_quality_def)

lemma first_track_never_updated: "first_track = never_updated 1 (0, person_detection) 0"
  by (simp add: first_track_def never_updated_0)

lemma later_call_on_never_updated:
  assumes u: "update_before_eviction lsa self ds = Some mid"
    and i: "i < length (tracks self)"
    and t: "tracks self ! i = never_updated n d k"
  shows "tracks mid ! i = never_updated n d (k + 1) \<or> 1 < hits (tracks mid ! i)"
  using update_call_on_track [OF u i]
  unfolding t never_updated_Suc by (simp add: never_updated_fields)

text \<open>
  C10, as the claim has it: before its first \<^verbatim>\<open>update()\<close> a new track would have a
  quality score equal to the creating detection's confidence. The default tracker, first
  frame, one detection of confidence 0.9: on the greedy fallback and on the
  optimal-assignment path alike the call returns track 1 with one hit, confidence 0.9 and
  quality score 0.855, which is also the reported quality.
\<close>

theorem fresh_track_quality_counterexample:
  "update None default_tracker [person_detection]
     = Some \<lparr> max_age = 30, min_hits = 3, iou_threshold = 0.3, tracks = [first_track],
              frame_count = 1, next_id = 2 \<rparr>
   \<and> update (Some diagonal) default_tracker [person_detection]
     = Some \<lparr> max_age = 30, min_hits = 3, iou_threshold = 0.3, tracks = [first_track],
              frame_count = 1, next_id = 2 \<rparr>
   \<and> hits first_track = 1
   \<and> confidence first_track = 0.9
   \<and> det_confidence person_detection = 0.9
   \<and> quality_score first_track = 0.855
   \<and> q_quality (get_track_quality first_track) = 0.855"
proof -
  have t: "tracks default_tracker = []"
    by (simp add: default_tracker_def EnhancedTracker_init_def)
  have u: "update lsa default_tracker [person_detection]
     = Some \<lparr> max_age = 30, min_hits = 3, iou_threshold = 0.3, tracks = [first_track],
              frame_count = 1, next_id = 2 \<rparr>" for lsa
    unfolding update_def update_before_eviction_no_tracks [OF t] enumerate_single
      high_single_person
    by (simp add: default_tracker_def EnhancedTracker_init_def remove_old_tracks_def
        first_track_def [symmetric] first_track_fields)
  have f: "hits first_track = 1 \<and> confidence first_track = 0.9
      \<and> det_confidence person_detection = 0.9
      \<and> quality_score first_track = 0.855
      \<and> q_quality (get_track_quality first_track) = 0.855"
    unfolding reported_quality first_track_eval by (simp add: person_detection_def)
  from u [of None] u [of "Some diagonal"] f show ?thesis by simp
qed

text \<open>
  C10, amended. A track leaves its constructor with stability 1, consistency 1 and a
  quality score equal to the creating detection's confidence. The call of
  \<^verbatim>\<open>EnhancedTracker.update\<close> that creates it marks it missed in its own miss
  accounting (every track beyond the ones the call started with is \<open>never_updated\<close> at
  0, made from a detection of confidence at least 0.5), and a later call that returns
  either calls \<^verbatim>\<open>update()\<close> on the track, raising its hit count above 1, or marks it
  missed again. So before its first \<^verbatim>\<open>update()\<close>, \<open>k + 1\<close> calls after and
  including the creating one, the track has one hit, stability 1, consistency 1, the
  creating detection's confidence, and the quality score \<open>0.95 ^ (k + 1)\<close> times that
  confidence, which is the reported quality. For a confidence in \<open>[0, 1]\<close> this is
  strictly less than the mean of confidence, stability and consistency, and for a
  positive confidence strictly less than the confidence.
\<close>

theorem never_updated_track_quality:
  "stability_score (Track_init b c cid cname tid) = 1
   \<and> consistency_score (Track_init b c cid cname tid) = 1
   \<and> quality_score (Track_init b c cid cname tid) = c
   \<and> (update_before_eviction lsa self ds = Some mid \<and> solver_answers_as_documented lsa \<longrightarrow>
        list_all (\<lambda>t. \<exists>d \<in> set (high_confidence (enumerate_detections ds)).
                        t = never_updated (track_id t) d 0)
          (drop (length (tracks self)) (tracks mid)))
   \<and> (update_before_eviction lsa self ds = Some mid \<and> i < length (tracks self)
        \<and> tracks self ! i = never_updated n d k \<longrightarrow>
        tracks mid ! i = never_updated n d (k + 1) \<or> 1 < hits (tracks mid ! i))
   \<and> hits (never_updated n d k) = 1
   \<and> confidence (never_updated n d k) = dconf d
   \<and> stability_score (never_updated n d k) = 1
   \<and> consistency_score (never_updated n d k) = 1
   \<and> quality_score (never_updated n d k) = 0.95 ^ (k + 1) * dconf d
   \<and> q_quality (get_track_quality (never_updated n d k)) = 0.95 ^ (k + 1) * dconf d
   \<and> (0 \<le> dconf d \<and> dconf d \<le> 1 \<longrightarrow>
        quality_score (never_updated n d k)
          < (confidence (never_updated n d k) + stability_score (never_updated n d k)
             + consistency_score (never_updated n d k)) / 3)
   \<and> (0 < dconf d \<longrightarrow> quality_score (never_updated n d k) < confidence (never_updated n d k))"
proof (intro conjI impI)
  show "stability_score (Track_init b c cid cname tid) = 1"
    "consistency_score (Track_init b c cid cname tid) = 1"
    "quality_score (Track_init b c cid cname tid) = c"
    by (simp_all add: Track_init_def)
next
  assume "update_before_eviction lsa self ds = Some mid \<and> solver_answers_as_documented lsa"
  then show "list_all (\<lambda>t. \<exists>d \<in> set (high_confidence (enumerate_detections ds)).
                        t = never_updated (track_id t) d 0)
          (drop (length (tracks self)) (tracks mid))"
    by (elim conjE) (rule created_tracks_are_marked_missed)
next
  assume "update_before_eviction lsa self ds = Some mid \<and> i < length (tracks self)
        \<and> tracks self ! i = never_updated n d k"
  then show "tracks mid ! i = never_updated n d (k + 1) \<or> 1 < hits (tracks mid ! i)"
    by (elim conjE) (rule later_call_on_never_updated)
next
  show "hits (never_updated n d k) = 1" "confidence (never_updated n d k) = dconf d"
    "stability_score (never_updated n d k) = 1" "consistency_score (never_updated n d k) = 1"
    by (rule never_updated_fields)+
next
  show "quality_score (never_updated n d k) = 0.95 ^ (k + 1) * dconf d"
    by (rule never_updated_quality)
next
  show "q_quality (get_track_quality (never_updated n d k)) = 0.95 ^ (k + 1) * dconf d"
    unfolding reported_quality by (rule never_updated_quality)
next
  assume "0 \<le> dconf d \<and> dconf d \<le> 1"
  then have "0.95 ^ (k + 1) * dconf d < (dconf d + 1 + 1) / 3"
    by (simp only: decayed_below_mean)
  then show "quality_score (never_updated n d k)
          < (confidence (never_updated n d k) + stability_score (never_updated n d k)
             + consistency_score (never_updated n d k)) / 3"
    by (simp only: never_updated_quality never_updated_fields)
next
  assume "0 < dconf d"
  then have "0.95 ^ (k + 1) * dconf d < dconf d" by (rule decayed_below_confidence)
  then show "quality_score (never_updated n d k) < confidence (never_updated n d k)"
    by (simp only: never_updated_quality never_updated_fields)
qed

text \<open>
  The default service's tracker holding track 1 (never updated, one call old), in a second
  frame with one detection at \<open>far_box\<close> on the optimal-assignment path: the call marks
  track 1 missed a second time and appends track 2, marked missed once, with quality
  score 0.855.
\<close>

theorem never_updated_track_quality_witness:
  "update_before_eviction (Some diagonal) tracker_after_frame_0 [far_detection]
     = Some tracker_with_far_track
   \<and> solver_answers_as_documented (Some diagonal)
   \<and> 0 < length (tracks tracker_after_frame_0)
   \<and> tracks tracker_after_frame_0 ! 0 = never_updated 1 (0, person_detection) 0
   \<and> 0 \<le> dconf (0, person_detection) \<and> dconf (0, person_detection) \<le> 1
   \<and> 0 < dconf (0, person_detection)
   \<and> list_all (\<lambda>t. \<exists>d \<in> set (high_confidence (enumerate_detections [far_detection])).
                        t = never_updated (track_id t) d 0)
          (drop (length (tracks tracker_after_frame_0)) (tracks tracker_with_far_track))
   \<and> (tracks tracker_with_far_track ! 0 = never_updated 1 (0, person_detection) (0 + 1)
        \<or> 1 < hits (tracks tracker_with_far_track ! 0))
   \<and> quality_score (never_updated 1 (0, person_detection) 0)
        = 0.95 ^ (0 + 1) * dconf (0, person_detection)
   \<and> quality_score (never_updated 1 (0, person_detection) 0)
        < (confidence (never_updated 1 (0, person_detection) 0)
           + stability_score (never_updated 1 (0, person_detection) 0)
           + consistency_score (never_updated 1 (0, person_detection) 0)) / 3
   \<and> quality_score (never_updated 1 (0, person_detection) 0)
        < confidence (never_updated 1 (0, person_detection) 0)
   \<and> drop (length (tracks tracker_after_frame_0)) (tracks tracker_with_far_track)
        = [never_updated 2 (0, far_detection) 0]
   \<and> quality_score (never_updated 2 (0, far_detection) 0) = 0.855"
proof -
  note T = never_updated_track_quality [where lsa = "Some diagonal"
      and self = tracker_after_frame_0 and ds = "[far_detection]"
      and mid = tracker_with_far_track and i = 0 and n = 1 and d = "(0, person_detection)"
      and k = 0 and b = person_box and c = "0.9" and cid = 0 and cname = "''person''"
      and tid = 1]
  have l: "0 < length (tracks tracker_after_frame_0)"
    by (simp add: tracks_after_frame_0)
  have f: "tracks tracker_after_frame_0 ! 0 = never_updated 1 (0, person_detection) 0"
    by (simp add: tracks_after_frame_0 first_track_never_updated)
  have c: "0 \<le> dconf (0, person_detection)" "dconf (0, person_detection) \<le> 1"
    "0 < dconf (0, person_detection)"
    by (simp_all add: dconf_person)
  have e1: "drop (length (tracks tracker_after_frame_0)) (tracks tracker_with_far_track)
        = [never_updated 2 (0, far_detection) 0]"
    by (simp add: tracks_after_frame_0 tracker_with_far_track_def never_updated_0)
  have e2: "quality_score (never_updated 2 (0, far_detection) 0) = 0.855"
    unfolding never_updated_quality by (simp add: dconf_def far_detection_def)
  from T solver_frame_far diagonal_as_documented l f c e1 e2 show ?thesis by blast
qed

section \<open>Frames through the service\<close>

lemma filter_detections_single: 
  "0 < max_tracks_per_frame self \<Longrightarrow> filter_detections self [d] = [d]"
  by (simp add: filter_detections_def slice_to_def Let_def min_def)

lemma service_tracker_default:
  "service_tracker default_service = EnhancedTracker_init 30 3 0.45"
  by (simp add: default_service_def TrackingService_init_def)

lemma update_first_frame:
  assumes "dconf (0, d) \<ge> 0.5"
  shows "update lsa (EnhancedTracker_init 30 3 thr) [d] =
     Some \<lparr> max_age = 30, min_hits = 3, iou_threshold = thr,
            tracks = [mark_missed (new_track 1 (0, d))], frame_count = 1, next_id = 2 \<rparr>"
proof -
  have t: "tracks (EnhancedTracker_init 30 3 thr) = []"
    by (simp add: EnhancedTracker_init_def)
  have h: "high_confidence [(0, d)] = [(0, d)]"
    using assms by (simp add: high_confidence_def)
  show ?thesis
    unfolding update_def update_before_eviction_no_tracks [OF t] enumerate_single h
    by (simp add: EnhancedTracker_init_def remove_old_tracks_def mark_missed_fields
        new_track_def Track_init_fields)
qed

lemma process_frame_0:
  "process_frame None default_service 0 [person_detection]
     = Some (service_after_frame_0, \<lparr> frame_number = 0, timestamp = 0, fr_tracks = [] \<rparr>)"
proof -
  have k: "0 < max_tracks_per_frame default_service"
    by (simp add: default_service_def TrackingService_init_def)
  have c: "dconf (0, person_detection) \<ge> 0.5" by (simp add: dconf_person)
  have h: "hits first_track = 1"
    by (simp add: first_track_def mark_missed_fields new_track_def Track_init_fields)
  have e: "emit_tracks default_service [first_track] = []"
    by (simp add: emit_tracks_def default_service_def TrackingService_init_def h)
  show ?thesis
    unfolding process_frame_def filter_detections_single [OF k] service_tracker_default
      update_first_frame [OF c] first_track_def [symmetric]
    by (simp add: e service_after_frame_0_def)
qed

text \<open>
  The first frame of scenario 1 through the default service: the new track has one hit,
  so nothing is emitted, and the tracker keeps the track.
\<close>

theorem per_frame_cap_then_filter_witness:
  "0 \<le> max_tracks_per_frame default_service
   \<and> process_frame None default_service 0 [person_detection]
       = Some (service_after_frame_0, \<lparr> frame_number = 0, timestamp = 0, fr_tracks = [] \<rparr>)
   \<and> (update None (service_tracker default_service)
          (filter_detections default_service [person_detection])
          = Some (service_tracker service_after_frame_0)
      \<and> fr_tracks \<lparr> frame_number = 0, timestamp = 0, fr_tracks = [] \<rparr> =
          map format_track
            (filter (\<lambda>t. hits t \<ge> min_track_duration default_service)
               (take (nat (max_tracks_per_frame default_service))
                  (tracks (service_tracker service_after_frame_0))))
      \<and> int (length (fr_tracks \<lparr> frame_number = 0, timestamp = 0, fr_tracks = [] \<rparr>))
          \<le> max_tracks_per_frame default_service)
   \<and> tracks (service_tracker service_after_frame_0) = [first_track]"
proof -
  have k: "0 \<le> max_tracks_per_frame default_service"
    by (simp add: default_service_def TrackingService_init_def)
  have t: "tracks (service_tracker service_after_frame_0) = [first_track]"
    by (simp add: service_after_frame_0_def)
  show ?thesis
    by (rule conjI [OF k conjI [OF process_frame_0
          conjI [OF per_frame_cap_then_filter [OF k process_frame_0] t]]])
qed







text \<open>
  The same frame on the greedy fallback: the degenerate detection finds no track above the
  threshold, so the loop of \<^verbatim>\<open>greedy_assignment\<close> does not end and neither does
  \<^verbatim>\<open>update\<close>.
\<close>

lemma malformed_detection_on_greedy_fallback:
  "update None tracker_after_frame_0 [degenerate_detection] = None"
  by (rule greedy_frame_degenerate_hangs)

end
